theory Spec2Isabelle
  imports Main "HOL-Library.Word" "HOL-Library.Sublist"
begin

section \<open>Data model shared by the four adapters\<close>

text \<open>
  The adapters only store and forward their numeric parameters; no arithmetic is done
  on them.  A C++ \<^verbatim>\<open>double\<close> is therefore kept as its 64-bit IEEE-754 bit pattern
  and a \<^verbatim>\<open>std::complex<float>\<close> as the pair of the bit patterns of its real and
  imaginary part.  A C++ \<^verbatim>\<open>int\<close> is a HOL \<open>int\<close>: the only operations on them are
  comparisons, the loop counter below the item count, and one narrowing cast to
  \<^verbatim>\<open>int16_t\<close> that is written out with \<open>signed_take_bit\<close>.  The two-valued vendor
  enums \<^verbatim>\<open>SmBool\<close> and \<^verbatim>\<open>SpBool\<close> (\<^verbatim>\<open>spFalse = 0\<close>, \<^verbatim>\<open>spTrue = 1\<close>) are \<open>bool\<close>.
\<close>

type_synonym double = "64 word"
type_synonym sample = "32 word \<times> 32 word"
type_synonym SmBool = bool
type_synonym SpBool = bool

text \<open>The data members that the setters write, and the dirty marker.\<close>

datatype member =
    M_center | M_reflevel | M_atten | M_decimation | M_bandwidth | M_swfilter
  | M_purge | M_samplerate | M_level | M_ioffset | M_qoffset | M_param_changed

text \<open>
  The vendor calls the adapters make, with the arguments the source passes.  Constant
  arguments (\<^verbatim>\<open>bbDataType32fc\<close>, \<^verbatim>\<open>BB_STREAMING, BB_STREAM_IQ\<close>, \<^verbatim>\<open>smModeIQStreaming\<close>,
  the null pointers of the transfer calls) are part of the constructor's meaning.
  The first \<open>int\<close> of every call but the open calls is the device handle.
\<close>

datatype vcall =
    BbOpenDevice
  | BbGetSerialNumber int
  | BbConfigureIQCenter int double
  | BbConfigureRefLevel int double
  | BbConfigureIQ int int double
  | BbConfigureIQDataType int
  | BbInitiate int
  | BbQueryIQParameters int
  | BbGetIQUnpacked int int bool
  | BbAbort int
  | BbCloseDevice int
  | SmOpenDevice
  | SmGetDeviceInfo int
  | SmSetIQDataType int
  | SmSetIQCenterFreq int double
  | SmSetIQSampleRate int int
  | SmSetRefLevel int double
  | SmSetAttenuator int int
  | SmSetIQBandwidth int SmBool double
  | SmConfigure int
  | SmGetIQParameters int
  | SmGetIQ int int SmBool
  | SmAbort int
  | SmCloseDevice int
  | SpOpenDevice
  | SpGetSerialNumber int
  | SpSetIQDataType int
  | SpSetIQCenterFreq int double
  | SpSetIQSampleRate int int
  | SpSetIQSoftwareFilter int SpBool
  | SpSetRefLevel int double
  | SpSetAttenuator int int
  | SpSetIQBandwidth int double
  | SpConfigure int
  | SpGetIQParameters int
  | SpGetIQ int int SpBool
  | SpAbort int
  | SpCloseDevice int
  | VsgOpenDevice
  | VsgGetSerialNumber int
  | VsgSetFrequency int double
  | VsgSetSampleRate int double
  | VsgSetLevel int double
  | VsgSetIQOffset int int int
  | VsgGetFrequency int
  | VsgGetSampleRate int
  | VsgGetLevel int
  | VsgGetIQOffset int
  | VsgSubmitIQ int "sample list" int
  | VsgFlush int
  | VsgAbort int
  | VsgCloseDevice int

text \<open>
  What an execution does, in program order: taking and releasing the instance's mutex,
  reading and writing a shared member, a vendor call with the status it returned, a
  line on the diagnostic output (\<open>Diag\<close>: the literal text followed by the vendor's
  error string of the status; \<open>Stdout\<close>: an informational line, named by its label),
  and the allocation and release of the transfer buffer.
\<close>

datatype event =
    Lock | Unlock
  | Rd member | Wr member
  | Call vcall int
  | Diag string int
  | Stdout string
  | New int
  | Delete

text \<open>
  What a vendor call gives back: its status, the handle an open call stores through
  its pointer argument, and the samples a transfer call writes into the buffer it is
  given.
\<close>

record reply =
  rstatus :: int
  rhandle :: int
  riq :: "sample list"

text \<open>
  The world an adapter runs in: the adapter object itself, the device (the reply it
  gives to the k-th vendor call of the execution), the number of vendor calls made so
  far, the events so far, and the runtime's output memory \<open>out\<close> (the cell \<open>out w i\<close>
  is \<^verbatim>\<open>out[i]\<close> of the transfer hook).
\<close>

record 'a world =
  self :: 'a
  device :: "nat \<Rightarrow> reply"
  ncalls :: nat
  trace :: "event list"
  out :: "nat \<Rightarrow> sample"

text \<open>
  A call of the adapter returns a value, or the process is terminated by \<^verbatim>\<open>abort()\<close>,
  or a C++ exception leaves the call (\<^verbatim>\<open>new[]\<close> of a negative length).
\<close>

datatype ('v, 'w) res = Returns 'v 'w | Aborted 'w | Thrown 'w

fun andthen :: "('v, 'w) res \<Rightarrow> ('v \<Rightarrow> 'w \<Rightarrow> ('u, 'w) res) \<Rightarrow> ('u, 'w) res" where
  "andthen (Returns v w) f = f v w"
| "andthen (Aborted w) f = Aborted w"
| "andthen (Thrown w) f = Thrown w"

fun final :: "('v, 'w) res \<Rightarrow> 'w" where
  "final (Returns v w) = w"
| "final (Aborted w) = w"
| "final (Thrown w) = w"

fun aborted :: "('v, 'w) res \<Rightarrow> bool" where
  "aborted (Aborted w) = True"
| "aborted (Returns v w) = False"
| "aborted (Thrown w) = False"

definition emit :: "event \<Rightarrow> 'a world \<Rightarrow> 'a world" where
  "emit e w = w\<lparr>trace := trace w @ [e]\<rparr>"

fun reads :: "member list \<Rightarrow> 'a world \<Rightarrow> 'a world" where
  "reads [] w = w"
| "reads (m # ms) w = reads ms (emit (Rd m) w)"

definition store :: "member \<Rightarrow> ('a \<Rightarrow> 'a) \<Rightarrow> 'a world \<Rightarrow> 'a world" where
  "store m f w = emit (Wr m) (w\<lparr>self := f (self w)\<rparr>)"

definition next_reply :: "'a world \<Rightarrow> reply" where
  "next_reply w = device w (ncalls w)"

definition vendor :: "vcall \<Rightarrow> 'a world \<Rightarrow> 'a world" where
  "vendor c w = emit (Call c (rstatus (next_reply w))) (w\<lparr>ncalls := Suc (ncalls w)\<rparr>)"

text \<open>The events an execution added to those of the world it started in.\<close>

definition new_events :: "'a world \<Rightarrow> 'a world \<Rightarrow> event list" where
  "new_events w w' = drop (length (trace w)) (trace w')"

fun calls_of :: "event list \<Rightarrow> vcall list" where
  "calls_of [] = []"
| "calls_of (Call c st # es) = c # calls_of es"
| "calls_of (e # es) = calls_of es"

fun statuses_of :: "event list \<Rightarrow> int list" where
  "statuses_of [] = []"
| "statuses_of (Call c st # es) = st # statuses_of es"
| "statuses_of (e # es) = statuses_of es"

text \<open>
  \<open>guarded held es\<close>: every access to a shared member among the events \<open>es\<close> happens
  while the mutex is held, \<open>held\<close> telling whether it is held before the first event.
\<close>

fun guarded :: "bool \<Rightarrow> event list \<Rightarrow> bool" where
  "guarded held [] = True"
| "guarded held (Lock # es) = guarded True es"
| "guarded held (Unlock # es) = guarded False es"
| "guarded held (Rd m # es) = (held \<and> guarded held es)"
| "guarded held (Wr m # es) = (held \<and> guarded held es)"
| "guarded held (e # es) = guarded held es"

section \<open>ERROR_CHECK\<close>

text \<open>
  Each implementation file has its own \<^verbatim>\<open>ERROR_CHECK\<close>.  The success value of the
  SP family is \<^verbatim>\<open>spNoError = 0\<close> (sp\_api.h).  The headers of the other three
  families are not part of the sources at hand, so their success values
  \<^verbatim>\<open>bbNoError\<close>, \<^verbatim>\<open>smNoError\<close> and \<^verbatim>\<open>vsgNoError\<close> are parameters.
\<close>

definition spNoError :: int where
  "spNoError = 0"

definition bb_ERROR_CHECK :: "int \<Rightarrow> int \<Rightarrow> 'a world \<Rightarrow> (unit, 'a world) res" where
  "bb_ERROR_CHECK bbNoError status w =
     (if status \<noteq> bbNoError then
        (let isWarning = (status > bbNoError);
             w1 = emit (Diag (''** '' @ (if isWarning then ''Warning: '' else ''Error: ''))
                          status) w
         in if \<not> isWarning then Aborted w1 else Returns () w1)
      else Returns () w)"

definition sm_ERROR_CHECK :: "int \<Rightarrow> string \<Rightarrow> int \<Rightarrow> 'a world \<Rightarrow> (unit, 'a world) res" where
  "sm_ERROR_CHECK smNoError call status w =
     (if status \<noteq> smNoError then
        (let isWarning = (status > smNoError);
             w1 = emit (Diag (''** '' @ (if isWarning then ''Warning: ('' else ''Error: ('')
                                @ call @ '')'') status) w
         in if \<not> isWarning then Aborted w1 else Returns () w1)
      else Returns () w)"

definition sp_ERROR_CHECK :: "int \<Rightarrow> 'a world \<Rightarrow> (unit, 'a world) res" where
  "sp_ERROR_CHECK status w =
     (if status \<noteq> spNoError then
        (let isWarning = (status > spNoError);
             w1 = emit (Diag (''** '' @ (if isWarning then ''Warning: '' else ''Error: ''))
                          status) w
         in if \<not> isWarning then Aborted w1 else Returns () w1)
      else Returns () w)"

definition vsg_ERROR_CHECK :: "int \<Rightarrow> string \<Rightarrow> int \<Rightarrow> 'a world \<Rightarrow> (unit, 'a world) res" where
  "vsg_ERROR_CHECK vsgNoError call status w =
     (if status \<noteq> vsgNoError then
        (let isWarning = (status > vsgNoError);
             w1 = emit (Diag (''** VSG '' @ (if isWarning then ''Warning: ('' else ''Error: ('')
                                @ call @ '')'') status) w
         in if \<not> isWarning then Aborted w1 else Returns () w1)
      else Returns () w)"

text \<open>
  A run of checked vendor calls, as the constructors and \<^verbatim>\<open>configure()\<close> write them:
  \<^verbatim>\<open>ERROR_CHECK(name, call(args))\<close>, one after the other.  Each step lists the
  members the call's arguments read, the name given to \<^verbatim>\<open>ERROR_CHECK\<close> (empty where
  the family's \<^verbatim>\<open>ERROR_CHECK\<close> takes none) and the call.
\<close>

type_synonym step = "member list \<times> string \<times> vcall"

fun run_calls ::
  "(string \<Rightarrow> int \<Rightarrow> 'a world \<Rightarrow> (unit, 'a world) res) \<Rightarrow> step list \<Rightarrow> 'a world
     \<Rightarrow> (unit, 'a world) res" where
  "run_calls chk [] w = Returns () w"
| "run_calls chk ((ms, nm, c) # cs) w =
     (let w1 = reads ms w;
          r = next_reply w1;
          w2 = vendor c w1
      in andthen (chk nm (rstatus r) w2) (\<lambda>_. run_calls chk cs))"


text \<open>
  The transfer buffer.  \<^verbatim>\<open>new std::complex<float>[n]\<close> gives \<open>n\<close> value-initialised
  samples; a null pointer is \<open>None\<close>.  A transfer call is handed the buffer and the
  count \<open>n\<close> and overwrites a prefix of at most \<open>n\<close> cells with the samples the device
  delivers.  The copy loop is the source's \<^verbatim>\<open>for (int i = 0; i < n; i++) out[i] = _buffer[i]\<close>.
  Running out of memory in \<^verbatim>\<open>new[]\<close> is not modelled.
\<close>

definition fresh_buffer :: "int \<Rightarrow> sample list" where
  "fresh_buffer n = replicate (nat n) (0, 0)"

definition device_fill :: "int \<Rightarrow> sample list \<Rightarrow> sample list \<Rightarrow> sample list" where
  "device_fill n d b =
     (let xs = take (min (nat n) (length b)) d in xs @ drop (length xs) b)"

definition cells :: "sample list option \<Rightarrow> sample list" where
  "cells p = (case p of None \<Rightarrow> [] | Some b \<Rightarrow> b)"

function copy_loop :: "int \<Rightarrow> int \<Rightarrow> sample list \<Rightarrow> (nat \<Rightarrow> sample) \<Rightarrow> (nat \<Rightarrow> sample)" where
  "copy_loop i n buf dst =
     (if i < n then copy_loop (i + 1) n buf (dst(nat i := buf ! nat i)) else dst)"
  by pat_completeness auto
termination
  by (relation "measure (\<lambda>(i, n, buf, dst). nat (n - i))") auto

declare copy_loop.simps [simp del]

section \<open>The BB receiver (bb\_series\_impl)\<close>

text \<open>
  The members of the class, in the order of the header.  The state of \<^verbatim>\<open>_mutex\<close> is
  read off the \<open>Lock\<close> and \<open>Unlock\<close> events.
\<close>

record bb_series_impl =
  bb_handle :: int
  bb_center :: double
  bb_reflevel :: double
  bb_decimation :: int
  bb_bandwidth :: double
  bb_purge :: bool
  bb_param_changed :: bool
  bb_buffer :: "sample list option"
  bb_len :: int

definition bb_new ::
  "int \<Rightarrow> double \<Rightarrow> double \<Rightarrow> int \<Rightarrow> double \<Rightarrow> bool \<Rightarrow> (nat \<Rightarrow> reply) \<Rightarrow> (nat \<Rightarrow> sample)
     \<Rightarrow> (unit, bb_series_impl world) res" where
  "bb_new bbNoError center reflevel decimation bandwidth purge dev mem =
     (let w0 = \<lparr> self = \<lparr> bb_handle = - 1, bb_center = center, bb_reflevel = reflevel,
                           bb_decimation = decimation, bb_bandwidth = bandwidth,
                           bb_purge = purge, bb_param_changed = True,
                           bb_buffer = None, bb_len = 0 \<rparr>,
                  device = dev, ncalls = 0, trace = [], out = mem \<rparr>;
          w1 = emit (Stdout ''API Version: '') w0;
          r = next_reply w1;
          w2 = vendor BbOpenDevice w1;
          w3 = w2\<lparr>self := (self w2)\<lparr>bb_handle := rhandle r\<rparr>\<rparr>
      in andthen (bb_ERROR_CHECK bbNoError (rstatus r) w3) (\<lambda>_ w4.
           andthen (run_calls (\<lambda>_. bb_ERROR_CHECK bbNoError)
                      [([], [], BbGetSerialNumber (bb_handle (self w4)))] w4) (\<lambda>_ w5.
             Returns () (emit (Stdout ''Serial Number: '') w5))))"

definition bb_delete :: "bb_series_impl world \<Rightarrow> bb_series_impl world" where
  "bb_delete w =
     (let h = bb_handle (self w);
          w1 = vendor (BbAbort h) w;
          w2 = vendor (BbCloseDevice h) w1
      in if bb_buffer (self w2) \<noteq> None then emit Delete w2 else w2)"

definition bb_set_center :: "double \<Rightarrow> bb_series_impl world \<Rightarrow> bb_series_impl world" where
  "bb_set_center center w =
     (let w1 = emit Lock w;
          w2 = store M_center (\<lambda>a. a\<lparr>bb_center := center\<rparr>) w1;
          w3 = store M_param_changed (\<lambda>a. a\<lparr>bb_param_changed := True\<rparr>) w2
      in emit Unlock w3)"

definition bb_set_reflevel :: "double \<Rightarrow> bb_series_impl world \<Rightarrow> bb_series_impl world" where
  "bb_set_reflevel reflevel w =
     (let w1 = emit Lock w;
          w2 = store M_reflevel (\<lambda>a. a\<lparr>bb_reflevel := reflevel\<rparr>) w1;
          w3 = store M_param_changed (\<lambda>a. a\<lparr>bb_param_changed := True\<rparr>) w2
      in emit Unlock w3)"

definition bb_set_decimation :: "int \<Rightarrow> bb_series_impl world \<Rightarrow> bb_series_impl world" where
  "bb_set_decimation decimation w =
     (let w1 = emit Lock w;
          w2 = store M_decimation (\<lambda>a. a\<lparr>bb_decimation := decimation\<rparr>) w1;
          w3 = store M_param_changed (\<lambda>a. a\<lparr>bb_param_changed := True\<rparr>) w2
      in emit Unlock w3)"

definition bb_set_bandwidth :: "double \<Rightarrow> bb_series_impl world \<Rightarrow> bb_series_impl world" where
  "bb_set_bandwidth bandwidth w =
     (let w1 = emit Lock w;
          w2 = store M_bandwidth (\<lambda>a. a\<lparr>bb_bandwidth := bandwidth\<rparr>) w1;
          w3 = store M_param_changed (\<lambda>a. a\<lparr>bb_param_changed := True\<rparr>) w2
      in emit Unlock w3)"

definition bb_set_purge :: "bool \<Rightarrow> bb_series_impl world \<Rightarrow> bb_series_impl world" where
  "bb_set_purge purge w =
     (let w1 = emit Lock w;
          w2 = store M_purge (\<lambda>a. a\<lparr>bb_purge := purge\<rparr>) w1
      in emit Unlock w2)"

text \<open>The calls of \<^verbatim>\<open>configure()\<close>, in the order of the source.\<close>

definition bb_configure_steps :: "bb_series_impl \<Rightarrow> step list" where
  "bb_configure_steps a =
     [([M_center], [], BbConfigureIQCenter (bb_handle a) (bb_center a)),
      ([M_reflevel], [], BbConfigureRefLevel (bb_handle a) (bb_reflevel a)),
      ([M_decimation, M_bandwidth], [],
         BbConfigureIQ (bb_handle a) (bb_decimation a) (bb_bandwidth a)),
      ([], [], BbConfigureIQDataType (bb_handle a)),
      ([], [], BbInitiate (bb_handle a)),
      ([], [], BbQueryIQParameters (bb_handle a))]"

definition bb_configure :: "int \<Rightarrow> bb_series_impl world \<Rightarrow> (unit, bb_series_impl world) res" where
  "bb_configure bbNoError w =
     (let w1 = emit Lock w
      in andthen (run_calls (\<lambda>_. bb_ERROR_CHECK bbNoError) (bb_configure_steps (self w1)) w1)
           (\<lambda>_ w2. Returns ()
              (emit Unlock
                (emit (Stdout ''Actual Bandwidth: '') (emit (Stdout ''Sample Rate: '') w2)))))"

text \<open>
  \<^verbatim>\<open>work()\<close>, cut at the comments of the source: "Initiate new configuration if
  necessary" (the test of the marker, \<^verbatim>\<open>configure()\<close>, the clearing of the marker),
  "Allocate memory if necessary", "Get I/Q", "Move data to output array".
\<close>

definition bb_clear :: "bb_series_impl world \<Rightarrow> bb_series_impl world" where
  "bb_clear w = store M_param_changed (\<lambda>a. a\<lparr>bb_param_changed := False\<rparr>) w"

definition bb_allocate :: "int \<Rightarrow> bb_series_impl world \<Rightarrow> (unit, bb_series_impl world) res" where
  "bb_allocate noutput_items w =
     (if bb_buffer (self w) = None \<or> noutput_items \<noteq> bb_len (self w) then
        (let w1 = (if bb_buffer (self w) \<noteq> None then emit Delete w else w)
         in if noutput_items < 0 then Thrown w1
            else Returns ()
                   (emit (New noutput_items)
                      (w1\<lparr>self := (self w1)\<lparr>bb_buffer := Some (fresh_buffer noutput_items),
                                             bb_len := noutput_items\<rparr>\<rparr>)))
      else Returns () w)"

definition bb_get_iq :: "int \<Rightarrow> int \<Rightarrow> bb_series_impl world \<Rightarrow> (unit, bb_series_impl world) res" where
  "bb_get_iq bbNoError noutput_items w =
     (let w1 = emit (Rd M_purge) w;
          r = next_reply w1;
          w2 = vendor (BbGetIQUnpacked (bb_handle (self w1)) noutput_items
                         (if bb_purge (self w1) then True else False)) w1;
          w3 = w2\<lparr>self := (self w2)\<lparr>bb_buffer :=
                   map_option (device_fill noutput_items (riq r)) (bb_buffer (self w2))\<rparr>\<rparr>
      in bb_ERROR_CHECK bbNoError (rstatus r) w3)"

definition bb_move :: "int \<Rightarrow> bb_series_impl world \<Rightarrow> bb_series_impl world" where
  "bb_move noutput_items w =
     w\<lparr>out := copy_loop 0 noutput_items (cells (bb_buffer (self w))) (out w)\<rparr>"

definition bb_transfer :: "int \<Rightarrow> int \<Rightarrow> bb_series_impl world \<Rightarrow> (int, bb_series_impl world) res" where
  "bb_transfer bbNoError noutput_items w =
     andthen (bb_allocate noutput_items w) (\<lambda>_ w1.
       andthen (bb_get_iq bbNoError noutput_items w1) (\<lambda>_ w2.
         Returns noutput_items (bb_move noutput_items w2)))"

definition bb_work :: "int \<Rightarrow> int \<Rightarrow> bb_series_impl world \<Rightarrow> (int, bb_series_impl world) res" where
  "bb_work bbNoError noutput_items w =
     (let w1 = emit (Rd M_param_changed) w
      in andthen
           (if bb_param_changed (self w1) then
              andthen (bb_configure bbNoError w1) (\<lambda>_ w2. Returns () (bb_clear w2))
            else Returns () w1)
           (\<lambda>_ w3. bb_transfer bbNoError noutput_items w3))"
section \<open>The SM receiver (sm\_series\_impl)\<close>

record sm_series_impl =
  sm_handle :: int
  sm_center :: double
  sm_reflevel :: double
  sm_atten :: int
  sm_decimation :: int
  sm_bandwidth :: double
  sm_purge :: SmBool
  sm_swfilter :: SmBool
  sm_param_changed :: bool
  sm_buffer :: "sample list option"
  sm_len :: int

definition sm_new ::
  "int \<Rightarrow> double \<Rightarrow> double \<Rightarrow> int \<Rightarrow> int \<Rightarrow> bool \<Rightarrow> bool \<Rightarrow> double
     \<Rightarrow> (nat \<Rightarrow> reply) \<Rightarrow> (nat \<Rightarrow> sample) \<Rightarrow> (unit, sm_series_impl world) res" where
  "sm_new smNoError center reflevel atten decimation swfilter purge bandwidth dev mem =
     (let w0 = \<lparr> self = \<lparr> sm_handle = - 1, sm_center = center, sm_reflevel = reflevel,
                           sm_atten = atten, sm_decimation = decimation,
                           sm_bandwidth = bandwidth,
                           sm_purge = (if purge then True else False),
                           sm_swfilter = (if swfilter then True else False),
                           sm_param_changed = True, sm_buffer = None, sm_len = 0 \<rparr>,
                  device = dev, ncalls = 0, trace = [], out = mem \<rparr>;
          w1 = emit (Stdout ''API Version: '') w0;
          r = next_reply w1;
          w2 = vendor SmOpenDevice w1;
          w3 = w2\<lparr>self := (self w2)\<lparr>sm_handle := rhandle r\<rparr>\<rparr>
      in andthen (sm_ERROR_CHECK smNoError ''smOpenDevice'' (rstatus r) w3) (\<lambda>_ w4.
           andthen (run_calls (sm_ERROR_CHECK smNoError)
                      [([], ''smGetDeviceInfo'', SmGetDeviceInfo (sm_handle (self w4)))] w4) (\<lambda>_ w5.
             Returns () (emit (Stdout ''Serial Number: '') w5))))"

definition sm_delete :: "sm_series_impl world \<Rightarrow> sm_series_impl world" where
  "sm_delete w =
     (let h = sm_handle (self w);
          w1 = vendor (SmAbort h) w;
          w2 = vendor (SmCloseDevice h) w1
      in if sm_buffer (self w2) \<noteq> None then emit Delete w2 else w2)"

definition sm_set_center :: "double \<Rightarrow> sm_series_impl world \<Rightarrow> sm_series_impl world" where
  "sm_set_center center w =
     (let w1 = emit Lock w;
          w2 = store M_center (\<lambda>a. a\<lparr>sm_center := center\<rparr>) w1;
          w3 = store M_param_changed (\<lambda>a. a\<lparr>sm_param_changed := True\<rparr>) w2
      in emit Unlock w3)"

definition sm_set_reflevel :: "double \<Rightarrow> sm_series_impl world \<Rightarrow> sm_series_impl world" where
  "sm_set_reflevel reflevel w =
     (let w1 = emit Lock w;
          w2 = store M_reflevel (\<lambda>a. a\<lparr>sm_reflevel := reflevel\<rparr>) w1;
          w3 = store M_param_changed (\<lambda>a. a\<lparr>sm_param_changed := True\<rparr>) w2
      in emit Unlock w3)"

definition sm_set_atten :: "int \<Rightarrow> sm_series_impl world \<Rightarrow> sm_series_impl world" where
  "sm_set_atten atten w =
     (let w1 = emit Lock w;
          w2 = store M_atten (\<lambda>a. a\<lparr>sm_atten := atten\<rparr>) w1;
          w3 = store M_param_changed (\<lambda>a. a\<lparr>sm_param_changed := True\<rparr>) w2
      in emit Unlock w3)"

definition sm_set_decimation :: "int \<Rightarrow> sm_series_impl world \<Rightarrow> sm_series_impl world" where
  "sm_set_decimation decimation w =
     (let w1 = emit Lock w;
          w2 = store M_decimation (\<lambda>a. a\<lparr>sm_decimation := decimation\<rparr>) w1;
          w3 = store M_param_changed (\<lambda>a. a\<lparr>sm_param_changed := True\<rparr>) w2
      in emit Unlock w3)"

definition sm_set_bandwidth :: "double \<Rightarrow> sm_series_impl world \<Rightarrow> sm_series_impl world" where
  "sm_set_bandwidth bandwidth w =
     (let w1 = emit Lock w;
          w2 = store M_bandwidth (\<lambda>a. a\<lparr>sm_bandwidth := bandwidth\<rparr>) w1;
          w3 = store M_param_changed (\<lambda>a. a\<lparr>sm_param_changed := True\<rparr>) w2
      in emit Unlock w3)"

definition sm_set_swfilter :: "bool \<Rightarrow> sm_series_impl world \<Rightarrow> sm_series_impl world" where
  "sm_set_swfilter swfilter w =
     (let w1 = emit Lock w;
          w2 = store M_swfilter (\<lambda>a. a\<lparr>sm_swfilter := (if swfilter then True else False)\<rparr>) w1;
          w3 = store M_param_changed (\<lambda>a. a\<lparr>sm_param_changed := True\<rparr>) w2
      in emit Unlock w3)"

definition sm_set_purge :: "bool \<Rightarrow> sm_series_impl world \<Rightarrow> sm_series_impl world" where
  "sm_set_purge purge w =
     (let w1 = emit Lock w;
          w2 = store M_purge (\<lambda>a. a\<lparr>sm_purge := (if purge then True else False)\<rparr>) w1
      in emit Unlock w2)"

text \<open>The calls of \<^verbatim>\<open>configure()\<close>, in the order of the source.\<close>

definition sm_configure_steps :: "sm_series_impl \<Rightarrow> step list" where
  "sm_configure_steps a =
     [([], ''smSetIQDataType'', SmSetIQDataType (sm_handle a)),
      ([M_center], ''smSetIQCenterFreq'', SmSetIQCenterFreq (sm_handle a) (sm_center a)),
      ([M_decimation], ''smSetIQSampleRate'', SmSetIQSampleRate (sm_handle a) (sm_decimation a)),
      ([M_reflevel], ''smSetRefLevel'', SmSetRefLevel (sm_handle a) (sm_reflevel a)),
      ([M_atten], ''smSetAttenuator'', SmSetAttenuator (sm_handle a) (sm_atten a)),
      ([M_swfilter, M_bandwidth], ''smSetIQBandwidth'', SmSetIQBandwidth (sm_handle a) (sm_swfilter a) (sm_bandwidth a)),
      ([], ''smConfigure'', SmConfigure (sm_handle a)),
      ([], ''smGetIQParameters'', SmGetIQParameters (sm_handle a))]"

definition sm_configure :: "int \<Rightarrow> sm_series_impl world \<Rightarrow> (unit, sm_series_impl world) res" where
  "sm_configure smNoError w =
     (let w1 = emit Lock w
      in andthen (run_calls (sm_ERROR_CHECK smNoError) (sm_configure_steps (self w1)) w1)
           (\<lambda>_ w2. Returns ()
              (emit Unlock
                (emit (Stdout ''Actual Bandwidth: '') (emit (Stdout ''Sample Rate: '') w2)))))"

definition sm_clear :: "sm_series_impl world \<Rightarrow> sm_series_impl world" where
  "sm_clear w = store M_param_changed (\<lambda>a. a\<lparr>sm_param_changed := False\<rparr>) w"

definition sm_allocate :: "int \<Rightarrow> sm_series_impl world \<Rightarrow> (unit, sm_series_impl world) res" where
  "sm_allocate noutput_items w =
     (if sm_buffer (self w) = None \<or> noutput_items \<noteq> sm_len (self w) then
        (let w1 = (if sm_buffer (self w) \<noteq> None then emit Delete w else w)
         in if noutput_items < 0 then Thrown w1
            else Returns ()
                   (emit (New noutput_items)
                      (w1\<lparr>self := (self w1)\<lparr>sm_buffer := Some (fresh_buffer noutput_items),
                                             sm_len := noutput_items\<rparr>\<rparr>)))
      else Returns () w)"

definition sm_get_iq :: "int \<Rightarrow> int \<Rightarrow> sm_series_impl world \<Rightarrow> (unit, sm_series_impl world) res" where
  "sm_get_iq smNoError noutput_items w =
     (let w1 = emit (Rd M_purge) w;
          r = next_reply w1;
          w2 = vendor (SmGetIQ (sm_handle (self w1)) noutput_items
                         (if sm_purge (self w1) then True else False)) w1;
          w3 = w2\<lparr>self := (self w2)\<lparr>sm_buffer :=
                   map_option (device_fill noutput_items (riq r)) (sm_buffer (self w2))\<rparr>\<rparr>
      in sm_ERROR_CHECK smNoError ''smGetIQ'' (rstatus r) w3)"

definition sm_move :: "int \<Rightarrow> sm_series_impl world \<Rightarrow> sm_series_impl world" where
  "sm_move noutput_items w =
     w\<lparr>out := copy_loop 0 noutput_items (cells (sm_buffer (self w))) (out w)\<rparr>"

definition sm_transfer :: "int \<Rightarrow> int \<Rightarrow> sm_series_impl world \<Rightarrow> (int, sm_series_impl world) res" where
  "sm_transfer smNoError noutput_items w =
     andthen (sm_allocate noutput_items w) (\<lambda>_ w1.
       andthen (sm_get_iq smNoError noutput_items w1) (\<lambda>_ w2.
         Returns noutput_items (sm_move noutput_items w2)))"

definition sm_work :: "int \<Rightarrow> int \<Rightarrow> sm_series_impl world \<Rightarrow> (int, sm_series_impl world) res" where
  "sm_work smNoError noutput_items w =
     (let w1 = emit (Rd M_param_changed) w
      in andthen
           (if sm_param_changed (self w1) then
              andthen (sm_configure smNoError w1) (\<lambda>_ w2. Returns () (sm_clear w2))
            else Returns () w1)
           (\<lambda>_ w3. sm_transfer smNoError noutput_items w3))"
section \<open>The SP receiver (sp\_series\_impl)\<close>

record sp_series_impl =
  sp_handle :: int
  sp_center :: double
  sp_reflevel :: double
  sp_atten :: int
  sp_decimation :: int
  sp_bandwidth :: double
  sp_purge :: SpBool
  sp_swfilter :: SpBool
  sp_param_changed :: bool
  sp_buffer :: "sample list option"
  sp_len :: int

definition sp_new ::
  "double \<Rightarrow> int \<Rightarrow> double \<Rightarrow> int \<Rightarrow> bool \<Rightarrow> double \<Rightarrow> bool
     \<Rightarrow> (nat \<Rightarrow> reply) \<Rightarrow> (nat \<Rightarrow> sample) \<Rightarrow> (unit, sp_series_impl world) res" where
  "sp_new reflevel atten center decimation swfilter bandwidth purge dev mem =
     (let w0 = \<lparr> self = \<lparr> sp_handle = - 1, sp_center = center, sp_reflevel = reflevel,
                           sp_atten = atten, sp_decimation = decimation,
                           sp_bandwidth = bandwidth,
                           sp_purge = (if purge then True else False),
                           sp_swfilter = (if swfilter then True else False),
                           sp_param_changed = True, sp_buffer = None, sp_len = 0 \<rparr>,
                  device = dev, ncalls = 0, trace = [], out = mem \<rparr>;
          w1 = emit (Stdout ''API Version: '') w0;
          r = next_reply w1;
          w2 = vendor SpOpenDevice w1;
          w3 = w2\<lparr>self := (self w2)\<lparr>sp_handle := rhandle r\<rparr>\<rparr>
      in andthen (sp_ERROR_CHECK (rstatus r) w3) (\<lambda>_ w4.
           andthen (run_calls (\<lambda>_. sp_ERROR_CHECK)
                      [([], [], SpGetSerialNumber (sp_handle (self w4)))] w4) (\<lambda>_ w5.
             Returns () (emit (Stdout ''Serial Number: '') w5))))"

definition sp_delete :: "sp_series_impl world \<Rightarrow> sp_series_impl world" where
  "sp_delete w =
     (let h = sp_handle (self w);
          w1 = vendor (SpAbort h) w;
          w2 = vendor (SpCloseDevice h) w1
      in if sp_buffer (self w2) \<noteq> None then emit Delete w2 else w2)"

definition sp_set_center :: "double \<Rightarrow> sp_series_impl world \<Rightarrow> sp_series_impl world" where
  "sp_set_center center w =
     (let w1 = emit Lock w;
          w2 = store M_center (\<lambda>a. a\<lparr>sp_center := center\<rparr>) w1;
          w3 = store M_param_changed (\<lambda>a. a\<lparr>sp_param_changed := True\<rparr>) w2
      in emit Unlock w3)"

definition sp_set_reflevel :: "double \<Rightarrow> sp_series_impl world \<Rightarrow> sp_series_impl world" where
  "sp_set_reflevel reflevel w =
     (let w1 = emit Lock w;
          w2 = store M_reflevel (\<lambda>a. a\<lparr>sp_reflevel := reflevel\<rparr>) w1;
          w3 = store M_param_changed (\<lambda>a. a\<lparr>sp_param_changed := True\<rparr>) w2
      in emit Unlock w3)"

definition sp_set_atten :: "int \<Rightarrow> sp_series_impl world \<Rightarrow> sp_series_impl world" where
  "sp_set_atten atten w =
     (let w1 = emit Lock w;
          w2 = store M_atten (\<lambda>a. a\<lparr>sp_atten := atten\<rparr>) w1;
          w3 = store M_param_changed (\<lambda>a. a\<lparr>sp_param_changed := True\<rparr>) w2
      in emit Unlock w3)"

definition sp_set_decimation :: "int \<Rightarrow> sp_series_impl world \<Rightarrow> sp_series_impl world" where
  "sp_set_decimation decimation w =
     (let w1 = emit Lock w;
          w2 = store M_decimation (\<lambda>a. a\<lparr>sp_decimation := decimation\<rparr>) w1;
          w3 = store M_param_changed (\<lambda>a. a\<lparr>sp_param_changed := True\<rparr>) w2
      in emit Unlock w3)"

definition sp_set_bandwidth :: "double \<Rightarrow> sp_series_impl world \<Rightarrow> sp_series_impl world" where
  "sp_set_bandwidth bandwidth w =
     (let w1 = emit Lock w;
          w2 = store M_bandwidth (\<lambda>a. a\<lparr>sp_bandwidth := bandwidth\<rparr>) w1;
          w3 = store M_param_changed (\<lambda>a. a\<lparr>sp_param_changed := True\<rparr>) w2
      in emit Unlock w3)"

definition sp_set_swfilter :: "bool \<Rightarrow> sp_series_impl world \<Rightarrow> sp_series_impl world" where
  "sp_set_swfilter swfilter w =
     (let w1 = emit Lock w;
          w2 = store M_swfilter (\<lambda>a. a\<lparr>sp_swfilter := (if swfilter then True else False)\<rparr>) w1;
          w3 = store M_param_changed (\<lambda>a. a\<lparr>sp_param_changed := True\<rparr>) w2
      in emit Unlock w3)"

definition sp_set_purge :: "bool \<Rightarrow> sp_series_impl world \<Rightarrow> sp_series_impl world" where
  "sp_set_purge purge w =
     (let w1 = emit Lock w;
          w2 = store M_purge (\<lambda>a. a\<lparr>sp_purge := (if purge then True else False)\<rparr>) w1
      in emit Unlock w2)"

text \<open>The calls of \<^verbatim>\<open>configure()\<close>, in the order of the source.\<close>

definition sp_configure_steps :: "sp_series_impl \<Rightarrow> step list" where
  "sp_configure_steps a =
     [([], [], SpSetIQDataType (sp_handle a)),
      ([M_center], [], SpSetIQCenterFreq (sp_handle a) (sp_center a)),
      ([M_decimation], [], SpSetIQSampleRate (sp_handle a) (sp_decimation a)),
      ([M_swfilter], [], SpSetIQSoftwareFilter (sp_handle a) (sp_swfilter a)),
      ([M_reflevel], [], SpSetRefLevel (sp_handle a) (sp_reflevel a)),
      ([M_atten], [], SpSetAttenuator (sp_handle a) (sp_atten a)),
      ([M_bandwidth], [], SpSetIQBandwidth (sp_handle a) (sp_bandwidth a)),
      ([], [], SpConfigure (sp_handle a)),
      ([], [], SpGetIQParameters (sp_handle a))]"

definition sp_configure :: "sp_series_impl world \<Rightarrow> (unit, sp_series_impl world) res" where
  "sp_configure w =
     (let w1 = emit Lock w
      in andthen (run_calls (\<lambda>_. sp_ERROR_CHECK) (sp_configure_steps (self w1)) w1)
           (\<lambda>_ w2. Returns ()
              (emit Unlock
                (emit (Stdout ''Actual Bandwidth: '') (emit (Stdout ''Sample Rate: '') w2)))))"

definition sp_clear :: "sp_series_impl world \<Rightarrow> sp_series_impl world" where
  "sp_clear w = store M_param_changed (\<lambda>a. a\<lparr>sp_param_changed := False\<rparr>) w"

definition sp_allocate :: "int \<Rightarrow> sp_series_impl world \<Rightarrow> (unit, sp_series_impl world) res" where
  "sp_allocate noutput_items w =
     (if sp_buffer (self w) = None \<or> noutput_items \<noteq> sp_len (self w) then
        (let w1 = (if sp_buffer (self w) \<noteq> None then emit Delete w else w)
         in if noutput_items < 0 then Thrown w1
            else Returns ()
                   (emit (New noutput_items)
                      (w1\<lparr>self := (self w1)\<lparr>sp_buffer := Some (fresh_buffer noutput_items),
                                             sp_len := noutput_items\<rparr>\<rparr>)))
      else Returns () w)"

definition sp_get_iq :: "int \<Rightarrow> sp_series_impl world \<Rightarrow> (unit, sp_series_impl world) res" where
  "sp_get_iq noutput_items w =
     (let w1 = emit (Rd M_purge) w;
          r = next_reply w1;
          w2 = vendor (SpGetIQ (sp_handle (self w1)) noutput_items
                         (if sp_purge (self w1) then True else False)) w1;
          w3 = w2\<lparr>self := (self w2)\<lparr>sp_buffer :=
                   map_option (device_fill noutput_items (riq r)) (sp_buffer (self w2))\<rparr>\<rparr>
      in sp_ERROR_CHECK (rstatus r) w3)"

definition sp_move :: "int \<Rightarrow> sp_series_impl world \<Rightarrow> sp_series_impl world" where
  "sp_move noutput_items w =
     w\<lparr>out := copy_loop 0 noutput_items (cells (sp_buffer (self w))) (out w)\<rparr>"

definition sp_transfer :: "int \<Rightarrow> sp_series_impl world \<Rightarrow> (int, sp_series_impl world) res" where
  "sp_transfer noutput_items w =
     andthen (sp_allocate noutput_items w) (\<lambda>_ w1.
       andthen (sp_get_iq noutput_items w1) (\<lambda>_ w2.
         Returns noutput_items (sp_move noutput_items w2)))"

definition sp_work :: "int \<Rightarrow> sp_series_impl world \<Rightarrow> (int, sp_series_impl world) res" where
  "sp_work noutput_items w =
     (let w1 = emit (Rd M_param_changed) w
      in andthen
           (if sp_param_changed (self w1) then
              andthen (sp_configure w1) (\<lambda>_ w2. Returns () (sp_clear w2))
            else Returns () w1)
           (\<lambda>_ w3. sp_transfer noutput_items w3))"
section \<open>The VSG generator (vsg\_series\_impl)\<close>

text \<open>
  The transfer hook reads the runtime's input items; \<open>inp\<close> is the memory the pointer
  \<^verbatim>\<open>input_items[0]\<close> addresses, and the submit call is handed that pointer and the
  item count.
\<close>

record vsg_series_impl =
  vsg_handle :: int
  vsg_center :: double
  vsg_samplerate :: double
  vsg_level :: double
  vsg_ioffset :: int
  vsg_qoffset :: int
  vsg_param_changed :: bool
  vsg_buffer :: "sample list option"
  vsg_len :: int

definition int16_t :: "int \<Rightarrow> int" where
  "int16_t x = signed_take_bit 15 x"

definition vsg_new ::
  "int \<Rightarrow> double \<Rightarrow> double \<Rightarrow> double \<Rightarrow> int \<Rightarrow> int
     \<Rightarrow> (nat \<Rightarrow> reply) \<Rightarrow> (nat \<Rightarrow> sample) \<Rightarrow> (unit, vsg_series_impl world) res" where
  "vsg_new vsgNoError center samplerate level ioffset qoffset dev mem =
     (let w0 = \<lparr> self = \<lparr> vsg_handle = - 1, vsg_center = center, vsg_samplerate = samplerate,
                           vsg_level = level, vsg_ioffset = ioffset, vsg_qoffset = qoffset,
                           vsg_param_changed = True, vsg_buffer = None, vsg_len = 0 \<rparr>,
                  device = dev, ncalls = 0, trace = [], out = mem \<rparr>;
          w1 = emit (Stdout ''API Version: '') w0;
          r = next_reply w1;
          w2 = vendor VsgOpenDevice w1;
          w3 = w2\<lparr>self := (self w2)\<lparr>vsg_handle := rhandle r\<rparr>\<rparr>
      in andthen (vsg_ERROR_CHECK vsgNoError ''vsgOpenDevice'' (rstatus r) w3) (\<lambda>_ w4.
           andthen (run_calls (vsg_ERROR_CHECK vsgNoError)
                      [([], ''vsgGetSerialNumber'', VsgGetSerialNumber (vsg_handle (self w4)))] w4)
             (\<lambda>_ w5. Returns () (emit (Stdout ''Serial Number: '') w5))))"

definition vsg_configure_steps :: "vsg_series_impl \<Rightarrow> step list" where
  "vsg_configure_steps a =
     [([M_center], ''vsgSetFrequency'', VsgSetFrequency (vsg_handle a) (vsg_center a)),
      ([M_samplerate], ''vsgSetSampleRate'', VsgSetSampleRate (vsg_handle a) (vsg_samplerate a)),
      ([M_level], ''vsgSetLevel'', VsgSetLevel (vsg_handle a) (vsg_level a)),
      ([M_ioffset, M_qoffset], ''vsgSetIQOffset'',
         VsgSetIQOffset (vsg_handle a) (int16_t (vsg_ioffset a)) (int16_t (vsg_qoffset a))),
      ([], ''vsgGetFrequency'', VsgGetFrequency (vsg_handle a)),
      ([], ''vsgGetSampleRate'', VsgGetSampleRate (vsg_handle a)),
      ([], ''vsgGetLevel'', VsgGetLevel (vsg_handle a)),
      ([], ''vsgGetIQOffset'', VsgGetIQOffset (vsg_handle a))]"

definition vsg_configure :: "int \<Rightarrow> vsg_series_impl world \<Rightarrow> (unit, vsg_series_impl world) res" where
  "vsg_configure vsgNoError w =
     (let w1 = emit Lock w
      in andthen (run_calls (vsg_ERROR_CHECK vsgNoError) (vsg_configure_steps (self w1)) w1)
           (\<lambda>_ w2. Returns ()
              (emit Unlock
                (emit (Stdout ''Q Offset: '')
                  (emit (Stdout ''I Offset: '')
                    (emit (Stdout ''Level: '')
                      (emit (Stdout ''SampleRate: '')
                        (emit (Stdout ''Frequency: '') w2))))))))"

definition vsg_delete :: "vsg_series_impl world \<Rightarrow> vsg_series_impl world" where
  "vsg_delete w =
     (let h = vsg_handle (self w);
          w1 = vendor (VsgAbort h) w;
          w2 = vendor (VsgCloseDevice h) w1
      in if vsg_buffer (self w2) \<noteq> None then emit Delete w2 else w2)"

definition vsg_set_center :: "double \<Rightarrow> vsg_series_impl world \<Rightarrow> vsg_series_impl world" where
  "vsg_set_center center w =
     (let w1 = emit Lock w;
          w2 = store M_center (\<lambda>a. a\<lparr>vsg_center := center\<rparr>) w1;
          w3 = store M_param_changed (\<lambda>a. a\<lparr>vsg_param_changed := True\<rparr>) w2
      in emit Unlock w3)"

definition vsg_set_level :: "double \<Rightarrow> vsg_series_impl world \<Rightarrow> vsg_series_impl world" where
  "vsg_set_level level w =
     (let w1 = emit Lock w;
          w2 = store M_level (\<lambda>a. a\<lparr>vsg_level := level\<rparr>) w1;
          w3 = store M_param_changed (\<lambda>a. a\<lparr>vsg_param_changed := True\<rparr>) w2
      in emit Unlock w3)"

definition vsg_set_samplerate :: "double \<Rightarrow> vsg_series_impl world \<Rightarrow> vsg_series_impl world" where
  "vsg_set_samplerate samplerate w =
     (let w1 = emit Lock w;
          w2 = store M_samplerate (\<lambda>a. a\<lparr>vsg_samplerate := samplerate\<rparr>) w1;
          w3 = store M_param_changed (\<lambda>a. a\<lparr>vsg_param_changed := True\<rparr>) w2
      in emit Unlock w3)"

definition vsg_set_ioffset :: "int \<Rightarrow> vsg_series_impl world \<Rightarrow> vsg_series_impl world" where
  "vsg_set_ioffset ioffset w =
     (let w1 = emit Lock w;
          w2 = store M_ioffset (\<lambda>a. a\<lparr>vsg_ioffset := ioffset\<rparr>) w1;
          w3 = store M_param_changed (\<lambda>a. a\<lparr>vsg_param_changed := True\<rparr>) w2
      in emit Unlock w3)"

definition vsg_set_qoffset :: "int \<Rightarrow> vsg_series_impl world \<Rightarrow> vsg_series_impl world" where
  "vsg_set_qoffset qoffset w =
     (let w1 = emit Lock w;
          w2 = store M_qoffset (\<lambda>a. a\<lparr>vsg_qoffset := qoffset\<rparr>) w1;
          w3 = store M_param_changed (\<lambda>a. a\<lparr>vsg_param_changed := True\<rparr>) w2
      in emit Unlock w3)"

definition vsg_clear :: "vsg_series_impl world \<Rightarrow> vsg_series_impl world" where
  "vsg_clear w = store M_param_changed (\<lambda>a. a\<lparr>vsg_param_changed := False\<rparr>) w"

definition vsg_transfer ::
  "int \<Rightarrow> sample list \<Rightarrow> vsg_series_impl world \<Rightarrow> (int, vsg_series_impl world) res" where
  "vsg_transfer noutput_items inp w =
     (let w1 = vendor (VsgSubmitIQ (vsg_handle (self w)) inp noutput_items) w;
          w2 = vendor (VsgFlush (vsg_handle (self w1))) w1
      in Returns noutput_items w2)"

definition vsg_work ::
  "int \<Rightarrow> int \<Rightarrow> sample list \<Rightarrow> vsg_series_impl world \<Rightarrow> (int, vsg_series_impl world) res" where
  "vsg_work vsgNoError noutput_items inp w =
     (let w1 = emit (Rd M_param_changed) w
      in andthen
           (if vsg_param_changed (self w1) then
              andthen (vsg_configure vsgNoError w1) (\<lambda>_ w2. Returns () (vsg_clear w2))
            else Returns () w1)
           (\<lambda>_ w3. vsg_transfer noutput_items inp w3))"
section \<open>Auxiliary notions for the proofs\<close>

definition is_check :: "int \<Rightarrow> (string \<Rightarrow> int \<Rightarrow> 'a world \<Rightarrow> (unit, 'a world) res) \<Rightarrow> bool" where
  "is_check ok chk = (\<forall>nm st w. \<exists>t. chk nm st w =
      (if st = ok then Returns () w
       else if ok < st then Returns () (emit (Diag t st) w)
       else Aborted (emit (Diag t st) w)))"

fun allocs_of :: "event list \<Rightarrow> event list" where
  "allocs_of [] = []"
| "allocs_of (New n # es) = New n # allocs_of es"
| "allocs_of (Delete # es) = Delete # allocs_of es"
| "allocs_of (e # es) = allocs_of es"

definition step_calls :: "step list \<Rightarrow> vcall list" where
  "step_calls steps = map (\<lambda>s. snd (snd s)) steps"

definition realloc_events :: "sample list option \<Rightarrow> int \<Rightarrow> int \<Rightarrow> event list" where
  "realloc_events p len n =
     (if p = None \<or> n \<noteq> len then
        (if p \<noteq> None then [Delete] else []) @ (if n < 0 then [] else [New n])
      else [])"

fun thrown :: "('v, 'w) res \<Rightarrow> bool" where
  "thrown (Thrown w) = True"
| "thrown (Returns v w) = False"
| "thrown (Aborted w) = False"

text \<open>The last element of a list, or a default when the list is empty.\<close>

definition last_or :: "'a \<Rightarrow> 'a list \<Rightarrow> 'a" where
  "last_or d xs = (if xs = [] then d else last xs)"

text \<open>
  Facts and notions about the BB receiver: the class invariant (an allocated buffer has
  \<^verbatim>\<open>_len\<close> cells), the object with its dirty marker and buffer members blanked
  (two states with the same \<open>bb_config\<close> have the same handle and pending
  parameters), and the vendor calls of one complete hook invocation.
\<close>

definition bb_inv :: "bb_series_impl \<Rightarrow> bool" where
  "bb_inv a = (case bb_buffer a of None \<Rightarrow> True | Some b \<Rightarrow> int (length b) = bb_len a)"

definition bb_config :: "bb_series_impl \<Rightarrow> bb_series_impl" where
  "bb_config a = a\<lparr>bb_param_changed := False, bb_buffer := None, bb_len := 0\<rparr>"

definition bb_hook_calls :: "int \<Rightarrow> bb_series_impl \<Rightarrow> vcall list" where
  "bb_hook_calls n a =
     (if bb_param_changed a then step_calls (bb_configure_steps a) else [])
       @ [BbGetIQUnpacked (bb_handle a) n (bb_purge a)]"

text \<open>A call of one of the setters of the BB receiver.\<close>

datatype bb_setter = Bb_set_center double | Bb_set_reflevel double | Bb_set_decimation int | Bb_set_bandwidth double | Bb_set_purge bool

fun bb_call :: "bb_setter \<Rightarrow> bb_series_impl world \<Rightarrow> bb_series_impl world" where
  "bb_call (Bb_set_center x) w = bb_set_center x w"
| "bb_call (Bb_set_reflevel x) w = bb_set_reflevel x w"
| "bb_call (Bb_set_decimation x) w = bb_set_decimation x w"
| "bb_call (Bb_set_bandwidth x) w = bb_set_bandwidth x w"
| "bb_call (Bb_set_purge x) w = bb_set_purge x w"

text \<open>The setters of the BB receiver that set the dirty marker.\<close>

fun bb_marks :: "bb_setter \<Rightarrow> bool" where
  "bb_marks (Bb_set_purge p) = False"
| "bb_marks c = True"

text \<open>
  Facts and notions about the SM receiver: the class invariant (an allocated buffer has
  \<^verbatim>\<open>_len\<close> cells), the object with its dirty marker and buffer members blanked
  (two states with the same \<open>sm_config\<close> have the same handle and pending
  parameters), and the vendor calls of one complete hook invocation.
\<close>

definition sm_inv :: "sm_series_impl \<Rightarrow> bool" where
  "sm_inv a = (case sm_buffer a of None \<Rightarrow> True | Some b \<Rightarrow> int (length b) = sm_len a)"

definition sm_config :: "sm_series_impl \<Rightarrow> sm_series_impl" where
  "sm_config a = a\<lparr>sm_param_changed := False, sm_buffer := None, sm_len := 0\<rparr>"

definition sm_hook_calls :: "int \<Rightarrow> sm_series_impl \<Rightarrow> vcall list" where
  "sm_hook_calls n a =
     (if sm_param_changed a then step_calls (sm_configure_steps a) else [])
       @ [SmGetIQ (sm_handle a) n (sm_purge a)]"

text \<open>A call of one of the setters of the SM receiver.\<close>

datatype sm_setter = Sm_set_center double | Sm_set_reflevel double | Sm_set_atten int | Sm_set_decimation int | Sm_set_bandwidth double | Sm_set_swfilter bool | Sm_set_purge bool

fun sm_call :: "sm_setter \<Rightarrow> sm_series_impl world \<Rightarrow> sm_series_impl world" where
  "sm_call (Sm_set_center x) w = sm_set_center x w"
| "sm_call (Sm_set_reflevel x) w = sm_set_reflevel x w"
| "sm_call (Sm_set_atten x) w = sm_set_atten x w"
| "sm_call (Sm_set_decimation x) w = sm_set_decimation x w"
| "sm_call (Sm_set_bandwidth x) w = sm_set_bandwidth x w"
| "sm_call (Sm_set_swfilter x) w = sm_set_swfilter x w"
| "sm_call (Sm_set_purge x) w = sm_set_purge x w"

text \<open>The setters of the SM receiver that set the dirty marker.\<close>

fun sm_marks :: "sm_setter \<Rightarrow> bool" where
  "sm_marks (Sm_set_purge p) = False"
| "sm_marks c = True"

text \<open>
  Facts and notions about the SP receiver: the class invariant (an allocated buffer has
  \<^verbatim>\<open>_len\<close> cells), the object with its dirty marker and buffer members blanked
  (two states with the same \<open>sp_config\<close> have the same handle and pending
  parameters), and the vendor calls of one complete hook invocation.
\<close>

definition sp_inv :: "sp_series_impl \<Rightarrow> bool" where
  "sp_inv a = (case sp_buffer a of None \<Rightarrow> True | Some b \<Rightarrow> int (length b) = sp_len a)"

definition sp_config :: "sp_series_impl \<Rightarrow> sp_series_impl" where
  "sp_config a = a\<lparr>sp_param_changed := False, sp_buffer := None, sp_len := 0\<rparr>"

definition sp_hook_calls :: "int \<Rightarrow> sp_series_impl \<Rightarrow> vcall list" where
  "sp_hook_calls n a =
     (if sp_param_changed a then step_calls (sp_configure_steps a) else [])
       @ [SpGetIQ (sp_handle a) n (sp_purge a)]"

text \<open>A call of one of the setters of the SP receiver.\<close>

datatype sp_setter = Sp_set_center double | Sp_set_reflevel double | Sp_set_atten int | Sp_set_decimation int | Sp_set_bandwidth double | Sp_set_swfilter bool | Sp_set_purge bool

fun sp_call :: "sp_setter \<Rightarrow> sp_series_impl world \<Rightarrow> sp_series_impl world" where
  "sp_call (Sp_set_center x) w = sp_set_center x w"
| "sp_call (Sp_set_reflevel x) w = sp_set_reflevel x w"
| "sp_call (Sp_set_atten x) w = sp_set_atten x w"
| "sp_call (Sp_set_decimation x) w = sp_set_decimation x w"
| "sp_call (Sp_set_bandwidth x) w = sp_set_bandwidth x w"
| "sp_call (Sp_set_swfilter x) w = sp_set_swfilter x w"
| "sp_call (Sp_set_purge x) w = sp_set_purge x w"

text \<open>The setters of the SP receiver that set the dirty marker.\<close>

fun sp_marks :: "sp_setter \<Rightarrow> bool" where
  "sp_marks (Sp_set_purge p) = False"
| "sp_marks c = True"

text \<open>The vendor calls of one complete hook invocation of the generator.\<close>

definition vsg_hook_calls :: "int \<Rightarrow> sample list \<Rightarrow> vsg_series_impl \<Rightarrow> vcall list" where
  "vsg_hook_calls n inp a =
     (if vsg_param_changed a then step_calls (vsg_configure_steps a) else [])
       @ [VsgSubmitIQ (vsg_handle a) inp n, VsgFlush (vsg_handle a)]"

text \<open>A call of one of the setters of the VSG generator.\<close>

datatype vsg_setter = Vsg_set_center double | Vsg_set_level double | Vsg_set_samplerate double | Vsg_set_ioffset int | Vsg_set_qoffset int

fun vsg_call :: "vsg_setter \<Rightarrow> vsg_series_impl world \<Rightarrow> vsg_series_impl world" where
  "vsg_call (Vsg_set_center x) w = vsg_set_center x w"
| "vsg_call (Vsg_set_level x) w = vsg_set_level x w"
| "vsg_call (Vsg_set_samplerate x) w = vsg_set_samplerate x w"
| "vsg_call (Vsg_set_ioffset x) w = vsg_set_ioffset x w"
| "vsg_call (Vsg_set_qoffset x) w = vsg_set_qoffset x w"

section \<open>The hook interleaved with setter calls\<close>

text \<open>
  The runtime drives \<^verbatim>\<open>work()\<close> from one thread while setters arrive from another.
  The setters and \<^verbatim>\<open>configure()\<close> hold the mutex from their first to their last
  statement, so each of them is one step here.  The test of the dirty marker and its
  clearing in \<^verbatim>\<open>work()\<close> are outside \<^verbatim>\<open>configure()\<close>, hence outside the mutex, and are
  steps of their own; a setter call can be scheduled between any two steps of the hook.
  A schedule names the thread that makes the next step; the control thread makes its
  pending setter calls in order.
\<close>

datatype hook_pc = At_test | At_configure | At_clear | At_transfer | At_end

datatype thread = Hook | Control

fun bb_hook_step ::
  "int \<Rightarrow> int \<Rightarrow> hook_pc \<Rightarrow> bb_series_impl world \<Rightarrow> (hook_pc, bb_series_impl world) res" where
  "bb_hook_step bbNoError n At_test w =
     (let w1 = emit (Rd M_param_changed) w
      in Returns (if bb_param_changed (self w1) then At_configure else At_transfer) w1)"
| "bb_hook_step bbNoError n At_configure w =
     andthen (bb_configure bbNoError w) (\<lambda>_ w1. Returns At_clear w1)"
| "bb_hook_step bbNoError n At_clear w = Returns At_transfer (bb_clear w)"
| "bb_hook_step bbNoError n At_transfer w =
     andthen (bb_transfer bbNoError n w) (\<lambda>_ w1. Returns At_end w1)"
| "bb_hook_step bbNoError n At_end w = Returns At_end w"

fun bb_interleave ::
  "int \<Rightarrow> int \<Rightarrow> thread list \<Rightarrow> hook_pc \<Rightarrow> bb_setter list \<Rightarrow> bb_series_impl world
     \<Rightarrow> (hook_pc \<times> bb_setter list, bb_series_impl world) res" where
  "bb_interleave bbNoError n [] pc cmds w = Returns (pc, cmds) w"
| "bb_interleave bbNoError n (Hook # ts) pc cmds w =
     andthen (bb_hook_step bbNoError n pc w) (\<lambda>pc' w1. bb_interleave bbNoError n ts pc' cmds w1)"
| "bb_interleave bbNoError n (Control # ts) pc [] w = bb_interleave bbNoError n ts pc [] w"
| "bb_interleave bbNoError n (Control # ts) pc (c # cmds) w =
     bb_interleave bbNoError n ts pc cmds (bb_call c w)"

section \<open>Example worlds\<close>

text \<open>
  A device that answers every call with status 0 and delivers two samples, a device
  that answers every call with the status \<open>- 1\<close>, a runtime output memory of zeros, and
  for each adapter the object a successful construction leaves behind on the first
  device (success value 0).
\<close>

definition steady_device :: "nat \<Rightarrow> reply" where
  "steady_device k = \<lparr> rstatus = 0, rhandle = 7, riq = [(1, 2), (3, 4)] \<rparr>"

definition failing_device :: "nat \<Rightarrow> reply" where
  "failing_device k = \<lparr> rstatus = - 1, rhandle = 7, riq = [] \<rparr>"

definition zero_memory :: "nat \<Rightarrow> sample" where
  "zero_memory k = (0, 0)"

definition bb_example :: "bb_series_impl world" where
  "bb_example =
     \<lparr> self = \<lparr> bb_handle = 7, bb_center = 100, bb_reflevel = 20, bb_decimation = 4,
                bb_bandwidth = 50, bb_purge = False, bb_param_changed = True,
                bb_buffer = None, bb_len = 0 \<rparr>,
       device = steady_device, ncalls = 2, trace = [], out = zero_memory \<rparr>"

definition sm_example :: "sm_series_impl world" where
  "sm_example =
     \<lparr> self = \<lparr> sm_handle = 7, sm_center = 100, sm_reflevel = 20, sm_atten = 1,
                sm_decimation = 4, sm_bandwidth = 50, sm_purge = False, sm_swfilter = True,
                sm_param_changed = True, sm_buffer = None, sm_len = 0 \<rparr>,
       device = steady_device, ncalls = 2, trace = [], out = zero_memory \<rparr>"

definition sp_example :: "sp_series_impl world" where
  "sp_example =
     \<lparr> self = \<lparr> sp_handle = 7, sp_center = 100, sp_reflevel = 20, sp_atten = 1,
                sp_decimation = 4, sp_bandwidth = 50, sp_purge = False, sp_swfilter = True,
                sp_param_changed = True, sp_buffer = None, sp_len = 0 \<rparr>,
       device = steady_device, ncalls = 2, trace = [], out = zero_memory \<rparr>"

definition vsg_example :: "vsg_series_impl world" where
  "vsg_example =
     \<lparr> self = \<lparr> vsg_handle = 7, vsg_center = 100, vsg_samplerate = 50, vsg_level = 20,
                vsg_ioffset = 1, vsg_qoffset = 2, vsg_param_changed = True,
                vsg_buffer = None, vsg_len = 0 \<rparr>,
       device = steady_device, ncalls = 2, trace = [], out = zero_memory \<rparr>"

text \<open>
  The same objects once the hook has cleared the dirty marker, and the generator in that
  state on the failing device.
\<close>

definition bb_idle :: "bb_series_impl world" where
  "bb_idle = bb_example\<lparr>self := (self bb_example)\<lparr>bb_param_changed := False\<rparr>\<rparr>"

definition sm_idle :: "sm_series_impl world" where
  "sm_idle = sm_example\<lparr>self := (self sm_example)\<lparr>sm_param_changed := False\<rparr>\<rparr>"

definition sp_idle :: "sp_series_impl world" where
  "sp_idle = sp_example\<lparr>self := (self sp_example)\<lparr>sp_param_changed := False\<rparr>\<rparr>"

definition vsg_idle_failing :: "vsg_series_impl world" where
  "vsg_idle_failing =
     vsg_example\<lparr>self := (self vsg_example)\<lparr>vsg_param_changed := False\<rparr>,
                  device := failing_device\<rparr>"

section \<open>Basic facts\<close>

lemma emit_simps [simp]:
  "self (emit e w) = self w" "device (emit e w) = device w" "ncalls (emit e w) = ncalls w"
  "out (emit e w) = out w" "trace (emit e w) = trace w @ [e]"
  by (simp_all add: emit_def)

lemma reads_simps [simp]:
  "self (reads ms w) = self w" "device (reads ms w) = device w" "ncalls (reads ms w) = ncalls w"
  "out (reads ms w) = out w" "trace (reads ms w) = trace w @ map Rd ms"
  by (induction ms arbitrary: w; simp)+

lemma store_simps [simp]:
  "self (store m f w) = f (self w)" "device (store m f w) = device w"
  "ncalls (store m f w) = ncalls w" "out (store m f w) = out w"
  "trace (store m f w) = trace w @ [Wr m]"
  by (simp_all add: store_def)

lemma vendor_simps [simp]:
  "self (vendor c w) = self w" "device (vendor c w) = device w"
  "ncalls (vendor c w) = Suc (ncalls w)" "out (vendor c w) = out w"
  "trace (vendor c w) = trace w @ [Call c (rstatus (device w (ncalls w)))]"
  by (simp_all add: vendor_def next_reply_def)

lemma calls_of_append [simp]: "calls_of (xs @ ys) = calls_of xs @ calls_of ys"
  by (induction xs rule: calls_of.induct) simp_all

lemma statuses_of_append [simp]: "statuses_of (xs @ ys) = statuses_of xs @ statuses_of ys"
  by (induction xs rule: statuses_of.induct) simp_all

lemma calls_of_Rd [simp]: "calls_of (map Rd ms) = []"
  by (induction ms) simp_all

lemma statuses_of_Rd [simp]: "statuses_of (map Rd ms) = []"
  by (induction ms) simp_all

lemma is_check_bb: "is_check ok (\<lambda>_. bb_ERROR_CHECK ok)"
  unfolding is_check_def bb_ERROR_CHECK_def Let_def by auto

lemma is_check_sm: "is_check ok (sm_ERROR_CHECK ok)"
  unfolding is_check_def sm_ERROR_CHECK_def Let_def by auto

lemma is_check_sp: "is_check spNoError (\<lambda>_. sp_ERROR_CHECK)"
  unfolding is_check_def sp_ERROR_CHECK_def Let_def by auto

lemma is_check_vsg: "is_check ok (vsg_ERROR_CHECK ok)"
  unfolding is_check_def vsg_ERROR_CHECK_def Let_def by auto

lemma is_check_cases:
  assumes "is_check ok chk"
  obtains "st = ok" "chk nm st w = Returns () w"
  | t where "ok < st" "chk nm st w = Returns () (emit (Diag t st) w)"
  | t where "st < ok" "chk nm st w = Aborted (emit (Diag t st) w)"
proof -
  from assms obtain t where "chk nm st w =
      (if st = ok then Returns () w
       else if ok < st then Returns () (emit (Diag t st) w)
       else Aborted (emit (Diag t st) w))"
    unfolding is_check_def by blast
  then show thesis
    using that by (cases "st = ok"; cases "ok < st"; force)
qed

lemma allocs_of_append [simp]: "allocs_of (xs @ ys) = allocs_of xs @ allocs_of ys"
  by (induction xs rule: allocs_of.induct) simp_all

lemma allocs_of_Rd [simp]: "allocs_of (map Rd ms) = []"
  by (induction ms) simp_all

lemma new_events_append [simp]: "trace w' = trace w @ es \<Longrightarrow> new_events w w' = es"
  by (simp add: new_events_def)

lemma step_calls_simps [simp]:
  "step_calls [] = []" "step_calls ((ms, nm, c) # cs) = c # step_calls cs"
  by (simp_all add: step_calls_def)

lemma run_calls_frame:
  assumes "is_check ok chk"
  shows "self (final (run_calls chk steps w)) = self w
       \<and> out (final (run_calls chk steps w)) = out w
       \<and> device (final (run_calls chk steps w)) = device w"
proof (induction steps arbitrary: w)
  case Nil
  show ?case by simp
next
  case (Cons s cs)
  obtain ms nm c where s: "s = (ms, nm, c)" by (cases s) auto
  let ?w1 = "reads ms w"
  let ?w2 = "vendor c ?w1"
  let ?st = "rstatus (next_reply ?w1)"
  show ?case
    using assms
  proof (cases rule: is_check_cases [where st = ?st and nm = nm and w = ?w2])
    case 1
    then show ?thesis using Cons.IH [of ?w2] by (simp add: s Let_def)
  next
    case (2 t)
    then show ?thesis using Cons.IH [of "emit (Diag t ?st) ?w2"] by (simp add: s Let_def)
  next
    case (3 t)
    then show ?thesis by (simp add: s Let_def)
  qed
qed

lemma run_calls_not_thrown:
  assumes "is_check ok chk"
  shows "run_calls chk steps w \<noteq> Thrown w'"
proof (induction steps arbitrary: w)
  case Nil
  show ?case by simp
next
  case (Cons s cs)
  obtain ms nm c where s: "s = (ms, nm, c)" by (cases s) auto
  let ?w1 = "reads ms w"
  let ?w2 = "vendor c ?w1"
  let ?st = "rstatus (next_reply ?w1)"
  show ?case
    using assms
  proof (cases rule: is_check_cases [where st = ?st and nm = nm and w = ?w2])
    case 1
    then show ?thesis using Cons.IH [of ?w2] by (simp add: s Let_def)
  next
    case (2 t)
    then show ?thesis using Cons.IH [of "emit (Diag t ?st) ?w2"] by (simp add: s Let_def)
  next
    case (3 t)
    then show ?thesis by (simp add: s Let_def)
  qed
qed

lemma run_calls_events:
  assumes "is_check ok chk"
  shows "\<exists>es. trace (final (run_calls chk steps w)) = trace w @ es
            \<and> prefix (calls_of es) (step_calls steps)
            \<and> (steps \<noteq> [] \<longrightarrow> calls_of es \<noteq> [])
            \<and> allocs_of es = []
            \<and> Lock \<notin> set es
            \<and> (aborted (run_calls chk steps w) \<longrightarrow> (\<exists>st \<in> set (statuses_of es). st < ok))
            \<and> (\<not> aborted (run_calls chk steps w) \<longrightarrow>
                 calls_of es = step_calls steps \<and> (\<forall>st \<in> set (statuses_of es). ok \<le> st))"
proof (induction steps arbitrary: w)
  case Nil
  show ?case by simp
next
  case (Cons s cs)
  obtain ms nm c where s: "s = (ms, nm, c)" by (cases s) auto
  let ?w1 = "reads ms w"
  let ?w2 = "vendor c ?w1"
  let ?st = "rstatus (next_reply ?w1)"
  show ?case
    using assms
  proof (cases rule: is_check_cases [where st = ?st and nm = nm and w = ?w2])
    case 1
    from Cons.IH [of ?w2] obtain es where
      "trace (final (run_calls chk cs ?w2)) = trace ?w2 @ es"
      "prefix (calls_of es) (step_calls cs)" "allocs_of es = []" "Lock \<notin> set es"
      "aborted (run_calls chk cs ?w2) \<longrightarrow> (\<exists>st \<in> set (statuses_of es). st < ok)"
      "\<not> aborted (run_calls chk cs ?w2) \<longrightarrow>
         calls_of es = step_calls cs \<and> (\<forall>st \<in> set (statuses_of es). ok \<le> st)"
      by blast
    with 1 show ?thesis
      by (intro exI [of _ "map Rd ms @ [Call c ?st] @ es"])
         (auto simp: s Let_def next_reply_def)
  next
    case (2 t)
    let ?w3 = "emit (Diag t ?st) ?w2"
    from Cons.IH [of ?w3] obtain es where
      "trace (final (run_calls chk cs ?w3)) = trace ?w3 @ es"
      "prefix (calls_of es) (step_calls cs)" "allocs_of es = []" "Lock \<notin> set es"
      "aborted (run_calls chk cs ?w3) \<longrightarrow> (\<exists>st \<in> set (statuses_of es). st < ok)"
      "\<not> aborted (run_calls chk cs ?w3) \<longrightarrow>
         calls_of es = step_calls cs \<and> (\<forall>st \<in> set (statuses_of es). ok \<le> st)"
      by blast
    with 2 show ?thesis
      by (intro exI [of _ "map Rd ms @ [Call c ?st] @ [Diag t ?st] @ es"])
         (auto simp: s Let_def next_reply_def)
  next
    case (3 t)
    then show ?thesis
      by (intro exI [of _ "map Rd ms @ [Call c ?st] @ [Diag t ?st]"])
         (auto simp: s Let_def next_reply_def)
  qed
qed

lemma copy_loop_eq:
  "0 \<le> i \<Longrightarrow> copy_loop i n buf dst = (\<lambda>k. if nat i \<le> k \<and> int k < n then buf ! k else dst k)"
proof (induction i n buf dst rule: copy_loop.induct)
  case (1 i n buf dst)
  show ?case
  proof (cases "i < n")
    case True
    have "copy_loop i n buf dst = copy_loop (i + 1) n buf (dst(nat i := buf ! nat i))"
      using True by (subst copy_loop.simps) simp
    also have "\<dots> = (\<lambda>k. if nat (i + 1) \<le> k \<and> int k < n then buf ! k
                          else (dst(nat i := buf ! nat i)) k)"
      by (rule "1.IH" [OF True]) (use "1.prems" in simp)
    also have "\<dots> = (\<lambda>k. if nat i \<le> k \<and> int k < n then buf ! k else dst k)"
      using True "1.prems" by (auto simp: fun_eq_iff)
    finally show ?thesis .
  next
    case False
    then show ?thesis
      using "1.prems" by (subst copy_loop.simps) (auto simp: fun_eq_iff)
  qed
qed

lemma length_device_fill [simp]: "length (device_fill n d b) = length b"
  by (simp add: device_fill_def Let_def)

lemma length_fresh_buffer [simp]: "length (fresh_buffer n) = nat n"
  by (simp add: fresh_buffer_def)

lemma andthen_Returns:
  "andthen r f = Returns v w \<Longrightarrow> \<exists>u w1. r = Returns u w1 \<and> f u w1 = Returns v w"
  by (cases r) auto

lemma check_Returns:
  assumes "is_check ok chk" and "chk nm st w = Returns u w'"
  shows "self w' = self w \<and> device w' = device w \<and> out w' = out w"
  using assms(1)
  by (cases rule: is_check_cases [where st = st and nm = nm and w = w]) (use assms(2) in auto)

lemma run_calls_Returns:
  assumes "is_check ok chk" and "run_calls chk steps w = Returns u w'"
  shows "self w' = self w \<and> device w' = device w \<and> out w' = out w"
  using run_calls_frame [OF assms(1), of steps w] assms(2) by simp

lemma status_of_call: "Call c st \<in> set es \<Longrightarrow> st \<in> set (statuses_of es)"
  by (induction es rule: statuses_of.induct) auto

lemma res_cases3:
  "\<not> aborted r \<Longrightarrow> \<not> thrown r \<Longrightarrow> \<exists>v w'. r = Returns v w'"
  by (cases r) simp_all

lemma last_or_Cons: "last_or d (x # xs) = last_or x xs"
  by (simp add: last_or_def)

lemma last_or_Nil [simp]: "last_or d [] = d"
  by (simp add: last_or_def)

section \<open>Facts about the BB receiver\<close>

lemma bb_configure_frame:
  "self (final (bb_configure ok w)) = self w \<and> out (final (bb_configure ok w)) = out w
    \<and> device (final (bb_configure ok w)) = device w"
  using run_calls_frame [OF is_check_bb, of ok "bb_configure_steps (self w)" "emit Lock w"]
  by (cases "run_calls (\<lambda>_. bb_ERROR_CHECK ok) (bb_configure_steps (self w)) (emit Lock w)")
     (simp_all add: bb_configure_def Let_def)

lemma bb_configure_not_thrown: "bb_configure ok w \<noteq> Thrown w'"
  using run_calls_not_thrown [OF is_check_bb, of ok "bb_configure_steps (self w)" "emit Lock w"]
  by (cases "run_calls (\<lambda>_. bb_ERROR_CHECK ok) (bb_configure_steps (self w)) (emit Lock w)")
     (simp_all add: bb_configure_def Let_def)

lemma bb_configure_events:
  "\<exists>es. trace (final (bb_configure ok w)) = trace w @ Lock # es
      \<and> prefix (calls_of es) (step_calls (bb_configure_steps (self w)))
      \<and> calls_of es \<noteq> []
      \<and> allocs_of es = []
      \<and> (aborted (bb_configure ok w) \<longrightarrow> (\<exists>st \<in> set (statuses_of es). st < ok))
      \<and> (\<not> aborted (bb_configure ok w) \<longrightarrow>
            calls_of es = step_calls (bb_configure_steps (self w))
          \<and> (\<forall>st \<in> set (statuses_of es). ok \<le> st))"
proof -
  let ?r = "run_calls (\<lambda>_. bb_ERROR_CHECK ok) (bb_configure_steps (self w)) (emit Lock w)"
  from run_calls_events [OF is_check_bb, of ok "bb_configure_steps (self w)" "emit Lock w"]
  obtain es where es: "trace (final ?r) = trace (emit Lock w) @ es"
    "prefix (calls_of es) (step_calls (bb_configure_steps (self w)))"
    "bb_configure_steps (self w) \<noteq> [] \<longrightarrow> calls_of es \<noteq> []"
    "allocs_of es = []"
    "aborted ?r \<longrightarrow> (\<exists>st \<in> set (statuses_of es). st < ok)"
    "\<not> aborted ?r \<longrightarrow> calls_of es = step_calls (bb_configure_steps (self w))
          \<and> (\<forall>st \<in> set (statuses_of es). ok \<le> st)"
    by blast
  have ne: "bb_configure_steps (self w) \<noteq> []" by (simp add: bb_configure_steps_def)
  show ?thesis
  proof (cases ?r)
    case (Returns u w1)
    with es ne show ?thesis
      by (intro exI [of _ "es @ [Stdout ''Sample Rate: '', Stdout ''Actual Bandwidth: '', Unlock]"])
         (simp add: bb_configure_def Let_def)
  next
    case (Aborted w1)
    with es ne show ?thesis
      by (intro exI [of _ es]) (simp add: bb_configure_def Let_def)
  next
    case (Thrown w1)
    with run_calls_not_thrown [OF is_check_bb] show ?thesis by blast
  qed
qed

lemma bb_transfer_events:
  "\<exists>es. trace (final (bb_transfer ok n w)) = trace w @ es
      \<and> device (final (bb_transfer ok n w)) = device w
      \<and> Lock \<notin> set es
      \<and> allocs_of es = realloc_events (bb_buffer (self w)) (bb_len (self w)) n
      \<and> bb_param_changed (self (final (bb_transfer ok n w))) = bb_param_changed (self w)
      \<and> prefix (calls_of es) [BbGetIQUnpacked (bb_handle (self w)) n (bb_purge (self w))]
      \<and> (aborted (bb_transfer ok n w) \<longrightarrow> (\<exists>st \<in> set (statuses_of es). st < ok))
      \<and> (\<not> aborted (bb_transfer ok n w) \<longrightarrow> (\<forall>st \<in> set (statuses_of es). ok \<le> st))
      \<and> (thrown (bb_transfer ok n w) \<longrightarrow> n < 0)
      \<and> (aborted (bb_transfer ok n w) \<or> thrown (bb_transfer ok n w) \<longrightarrow>
            out (final (bb_transfer ok n w)) = out w)
      \<and> (\<not> aborted (bb_transfer ok n w) \<and> \<not> thrown (bb_transfer ok n w) \<longrightarrow>
            calls_of es = [BbGetIQUnpacked (bb_handle (self w)) n (bb_purge (self w))])"
  unfolding bb_transfer_def bb_allocate_def bb_get_iq_def bb_ERROR_CHECK_def bb_move_def
    realloc_events_def Let_def
  by (auto simp: next_reply_def)


lemma bb_allocate_returns:
  "bb_allocate n w = Returns u w1 \<Longrightarrow>
     (\<exists>b. bb_buffer (self w1) = Some b \<and> (bb_inv (self w) \<longrightarrow> int (length b) = n))
     \<and> bb_len (self w1) = n \<and> bb_config (self w1) = bb_config (self w)
     \<and> bb_param_changed (self w1) = bb_param_changed (self w)
     \<and> out w1 = out w \<and> device w1 = device w \<and> ncalls w1 = ncalls w"
  unfolding bb_allocate_def Let_def
  by (auto simp: bb_inv_def bb_config_def split: if_splits)

lemma bb_get_iq_returns:
  "bb_get_iq ok n w = Returns u w1 \<Longrightarrow>
     bb_buffer (self w1) =
         map_option (device_fill n (riq (device w (ncalls w)))) (bb_buffer (self w))
     \<and> bb_len (self w1) = bb_len (self w) \<and> bb_config (self w1) = bb_config (self w)
     \<and> bb_param_changed (self w1) = bb_param_changed (self w)
     \<and> out w1 = out w"
  unfolding bb_get_iq_def bb_ERROR_CHECK_def Let_def
  by (auto simp: next_reply_def bb_config_def split: if_splits)

lemma bb_transfer_returns:
  "bb_transfer ok n w = Returns v w' \<Longrightarrow>
     v = n \<and> bb_len (self w') = n \<and> bb_config (self w') = bb_config (self w)
         \<and> bb_param_changed (self w') = bb_param_changed (self w)
         \<and> (\<exists>b. bb_buffer (self w') = Some b
           \<and> (bb_inv (self w) \<longrightarrow> int (length b) = n)
           \<and> out w' = (\<lambda>k. if int k < n then b ! k else out w k))"
proof -
  assume a: "bb_transfer ok n w = Returns v w'"
  then obtain w1 where w1: "bb_allocate n w = Returns () w1"
    by (cases "bb_allocate n w") (simp_all add: bb_transfer_def)
  with a obtain w2 where w2: "bb_get_iq ok n w1 = Returns () w2"
    by (cases "bb_get_iq ok n w1") (simp_all add: bb_transfer_def)
  from a w1 w2 have r: "v = n" "w' = bb_move n w2"
    by (auto simp: bb_transfer_def)
  from bb_allocate_returns [OF w1] obtain b where b:
    "bb_buffer (self w1) = Some b" "bb_inv (self w) \<longrightarrow> int (length b) = n"
    "bb_len (self w1) = n" "bb_config (self w1) = bb_config (self w)"
    "bb_param_changed (self w1) = bb_param_changed (self w)" "out w1 = out w"
    by blast
  from bb_get_iq_returns [OF w2] b have s2:
    "bb_buffer (self w2) = Some (device_fill n (riq (device w1 (ncalls w1))) b)"
    "bb_len (self w2) = n" "bb_config (self w2) = bb_config (self w)"
    "bb_param_changed (self w2) = bb_param_changed (self w)" "out w2 = out w"
    by simp_all
  show ?thesis
    using r s2 b(2)
    by (simp add: bb_move_def copy_loop_eq cells_def)
qed


lemma bb_work_cases:
  obtains (clean) "\<not> bb_param_changed (self w)"
      "bb_work ok n w = bb_transfer ok n (emit (Rd M_param_changed) w)"
  | (fatal) w1 where "bb_param_changed (self w)"
      "bb_configure ok (emit (Rd M_param_changed) w) = Aborted w1"
      "bb_work ok n w = Aborted w1"
  | (fresh) w1 where "bb_param_changed (self w)"
      "bb_configure ok (emit (Rd M_param_changed) w) = Returns () w1"
      "bb_work ok n w = bb_transfer ok n (bb_clear w1)"
proof (cases "bb_param_changed (self w)")
  case False
  then show thesis using clean by (simp add: bb_work_def Let_def)
next
  case True
  show thesis
  proof (cases "bb_configure ok (emit (Rd M_param_changed) w)")
    case (Returns u w1)
    with True show thesis using fresh [of w1] by (simp add: bb_work_def Let_def)
  next
    case (Aborted w1)
    with True show thesis using fatal [of w1] by (simp add: bb_work_def Let_def)
  next
    case (Thrown w1)
    with bb_configure_not_thrown show thesis by blast
  qed
qed

lemma bb_work_events:
  "\<exists>es. trace (final (bb_work ok n w)) = trace w @ Rd M_param_changed # es
      \<and> device (final (bb_work ok n w)) = device w
      \<and> prefix (calls_of es) (bb_hook_calls n (self w))
      \<and> (bb_param_changed (self w) \<longrightarrow> calls_of es \<noteq> [])
      \<and> (\<not> bb_param_changed (self w) \<longrightarrow>
            Lock \<notin> set es
          \<and> allocs_of es = realloc_events (bb_buffer (self w)) (bb_len (self w)) n
          \<and> \<not> bb_param_changed (self (final (bb_work ok n w))))
      \<and> (aborted (bb_work ok n w) \<longrightarrow> (\<exists>st \<in> set (statuses_of es). st < ok))
      \<and> (\<not> aborted (bb_work ok n w) \<longrightarrow> (\<forall>st \<in> set (statuses_of es). ok \<le> st))
      \<and> (thrown (bb_work ok n w) \<longrightarrow> n < 0)
      \<and> (aborted (bb_work ok n w) \<or> thrown (bb_work ok n w) \<longrightarrow>
            out (final (bb_work ok n w)) = out w)
      \<and> (\<not> aborted (bb_work ok n w) \<and> \<not> thrown (bb_work ok n w) \<longrightarrow>
            calls_of es = bb_hook_calls n (self w)
          \<and> allocs_of es = realloc_events (bb_buffer (self w)) (bb_len (self w)) n)"
proof (cases rule: bb_work_cases [of w ok n])
  case clean
  let ?w0 = "emit (Rd M_param_changed) w"
  from bb_transfer_events [of ok n ?w0] obtain es where
    "trace (final (bb_transfer ok n ?w0)) = trace ?w0 @ es"
    "device (final (bb_transfer ok n ?w0)) = device ?w0"
    "Lock \<notin> set es"
    "prefix (calls_of es) [BbGetIQUnpacked (bb_handle (self ?w0)) n (bb_purge (self ?w0))]"
    "aborted (bb_transfer ok n ?w0) \<longrightarrow> (\<exists>st \<in> set (statuses_of es). st < ok)"
    "\<not> aborted (bb_transfer ok n ?w0) \<longrightarrow> (\<forall>st \<in> set (statuses_of es). ok \<le> st)"
    "thrown (bb_transfer ok n ?w0) \<longrightarrow> n < 0"
    "aborted (bb_transfer ok n ?w0) \<or> thrown (bb_transfer ok n ?w0) \<longrightarrow>
       out (final (bb_transfer ok n ?w0)) = out ?w0"
    "\<not> aborted (bb_transfer ok n ?w0) \<and> \<not> thrown (bb_transfer ok n ?w0) \<longrightarrow>
       calls_of es = [BbGetIQUnpacked (bb_handle (self ?w0)) n (bb_purge (self ?w0))]"
    "allocs_of es = realloc_events (bb_buffer (self ?w0)) (bb_len (self ?w0)) n"
    "bb_param_changed (self (final (bb_transfer ok n ?w0))) = bb_param_changed (self ?w0)"
    by blast
  with clean show ?thesis
    by (intro exI [of _ es]) (simp add: bb_hook_calls_def)
next
  case (fatal w1)
  let ?w0 = "emit (Rd M_param_changed) w"
  from bb_configure_events [of ok ?w0] fatal(2) obtain es where
    "trace w1 = trace ?w0 @ Lock # es"
    "prefix (calls_of es) (step_calls (bb_configure_steps (self ?w0)))"
    "calls_of es \<noteq> []"
    "\<exists>st \<in> set (statuses_of es). st < ok"
    by auto
  moreover have "device w1 = device w" "out w1 = out w"
    using bb_configure_frame [of ok ?w0] fatal(2) by simp_all
  ultimately show ?thesis using fatal
    by (intro exI [of _ "Lock # es"]) (simp add: bb_hook_calls_def)
next
  case (fresh w1)
  let ?w0 = "emit (Rd M_param_changed) w"
  let ?w2 = "bb_clear w1"
  from bb_configure_events [of ok ?w0] fresh(2) obtain es1 where es1:
    "trace w1 = trace ?w0 @ Lock # es1"
    "calls_of es1 = step_calls (bb_configure_steps (self ?w0))"
    "calls_of es1 \<noteq> []"
    "allocs_of es1 = []"
    "\<forall>st \<in> set (statuses_of es1). ok \<le> st"
    by auto
  have fr: "self w1 = self w" "device w1 = device w" "out w1 = out w"
    using bb_configure_frame [of ok ?w0] fresh(2) by simp_all
  from bb_transfer_events [of ok n ?w2] obtain es2 where es2:
    "trace (final (bb_transfer ok n ?w2)) = trace ?w2 @ es2"
    "device (final (bb_transfer ok n ?w2)) = device ?w2"
    "prefix (calls_of es2) [BbGetIQUnpacked (bb_handle (self ?w2)) n (bb_purge (self ?w2))]"
    "aborted (bb_transfer ok n ?w2) \<longrightarrow> (\<exists>st \<in> set (statuses_of es2). st < ok)"
    "\<not> aborted (bb_transfer ok n ?w2) \<longrightarrow> (\<forall>st \<in> set (statuses_of es2). ok \<le> st)"
    "thrown (bb_transfer ok n ?w2) \<longrightarrow> n < 0"
    "aborted (bb_transfer ok n ?w2) \<or> thrown (bb_transfer ok n ?w2) \<longrightarrow>
       out (final (bb_transfer ok n ?w2)) = out ?w2"
    "\<not> aborted (bb_transfer ok n ?w2) \<and> \<not> thrown (bb_transfer ok n ?w2) \<longrightarrow>
       calls_of es2 = [BbGetIQUnpacked (bb_handle (self ?w2)) n (bb_purge (self ?w2))]"
    "allocs_of es2 = realloc_events (bb_buffer (self ?w2)) (bb_len (self ?w2)) n"
    "bb_param_changed (self (final (bb_transfer ok n ?w2))) = bb_param_changed (self ?w2)"
    by blast
  have s2: "bb_handle (self ?w2) = bb_handle (self w)" "bb_purge (self ?w2) = bb_purge (self w)"
    "bb_buffer (self ?w2) = bb_buffer (self w)" "bb_len (self ?w2) = bb_len (self w)"
    "device ?w2 = device w" "out ?w2 = out w"
    "trace ?w2 = trace w @ Rd M_param_changed # Lock # es1 @ [Wr M_param_changed]"
    using fr es1(1) by (simp_all add: bb_clear_def)
  have c1: "calls_of es1 = step_calls (bb_configure_steps (self w))"
    using es1(2) by simp
  have pc: "calls_of es2 = []
      \<or> calls_of es2 = [BbGetIQUnpacked (bb_handle (self w)) n (bb_purge (self w))]"
    using es2(3) [unfolded s2] by (auto simp: prefix_Cons)
  from es2 [unfolded s2] pc es1(3,4,5) c1 fresh(1,3) s2(5,6) show ?thesis
    by (intro exI [of _ "Lock # es1 @ Wr M_param_changed # es2"])
       (simp add: bb_hook_calls_def; blast)
qed

lemma bb_inv_param_changed [simp]: "bb_inv (a\<lparr>bb_param_changed := x\<rparr>) = bb_inv a"
  by (simp add: bb_inv_def split: option.split)

lemma bb_work_returns:
  "bb_work ok n w = Returns v w' \<Longrightarrow>
     v = n \<and> bb_len (self w') = n \<and> bb_config (self w') = bb_config (self w)
         \<and> \<not> bb_param_changed (self w')
         \<and> (\<exists>b. bb_buffer (self w') = Some b
           \<and> (bb_inv (self w) \<longrightarrow> int (length b) = n)
           \<and> out w' = (\<lambda>k. if int k < n then b ! k else out w k))"
proof -
  assume a: "bb_work ok n w = Returns v w'"
  show ?thesis
  proof (cases rule: bb_work_cases [of w ok n])
    case clean
    with a bb_transfer_returns [of ok n "emit (Rd M_param_changed) w" v w']
    show ?thesis by (auto cong: if_cong)
  next
    case (fatal w1)
    with a show ?thesis by simp
  next
    case (fresh w1)
    have fr: "self w1 = self w" "out w1 = out w"
      using bb_configure_frame [of ok "emit (Rd M_param_changed) w"] fresh(2) by simp_all
    with fresh a bb_transfer_returns [of ok n "bb_clear w1" v w']
    show ?thesis by (auto simp: bb_clear_def bb_config_def cong: if_cong)
  qed
qed


lemma bb_work_fatal:
  "Call c st \<in> set (new_events w (final (bb_work ok n w))) \<Longrightarrow> st < ok \<Longrightarrow>
     aborted (bb_work ok n w) \<and> out (final (bb_work ok n w)) = out w"
proof -
  assume c: "Call c st \<in> set (new_events w (final (bb_work ok n w)))" and f: "st < ok"
  from bb_work_events [of ok n w] obtain es where es:
    "trace (final (bb_work ok n w)) = trace w @ Rd M_param_changed # es"
    "\<not> aborted (bb_work ok n w) \<longrightarrow> (\<forall>st \<in> set (statuses_of es). ok \<le> st)"
    "aborted (bb_work ok n w) \<or> thrown (bb_work ok n w) \<longrightarrow>
       out (final (bb_work ok n w)) = out w"
    by blast
  from c es(1) have "Call c st \<in> set es" by simp
  then have "st \<in> set (statuses_of es)" by (rule status_of_call)
  with f es(2) have "aborted (bb_work ok n w)" by force
  with es(3) show ?thesis by simp
qed

lemma bb_work_completes:
  "\<forall>st \<in> set (statuses_of (new_events w (final (bb_work ok n w)))). ok \<le> st \<Longrightarrow> 0 \<le> n \<Longrightarrow>
     \<exists>w'. bb_work ok n w = Returns n w'"
proof -
  assume a: "\<forall>st \<in> set (statuses_of (new_events w (final (bb_work ok n w)))). ok \<le> st"
    and n: "0 \<le> n"
  from bb_work_events [of ok n w] obtain es where es:
    "trace (final (bb_work ok n w)) = trace w @ Rd M_param_changed # es"
    "aborted (bb_work ok n w) \<longrightarrow> (\<exists>st \<in> set (statuses_of es). st < ok)"
    "thrown (bb_work ok n w) \<longrightarrow> n < 0"
    by blast
  from a es(1) have "\<forall>st \<in> set (statuses_of es). ok \<le> st" by simp
  with es(2) have "\<not> aborted (bb_work ok n w)" by force
  moreover from es(3) n have "\<not> thrown (bb_work ok n w)" by auto
  ultimately obtain v w' where r: "bb_work ok n w = Returns v w'"
    using res_cases3 by blast
  with bb_work_returns [OF r] show ?thesis by simp
qed

lemma bb_inv_work:
  "bb_inv (self w) \<Longrightarrow> bb_work ok n w = Returns v w' \<Longrightarrow> bb_inv (self w')"
  using bb_work_returns [of ok n w v w'] by (auto simp: bb_inv_def)

lemma bb_check_Returns:
  "bb_ERROR_CHECK ok st w = Returns u w' \<Longrightarrow>
     self w' = self w \<and> device w' = device w \<and> out w' = out w"
  using check_Returns [OF is_check_bb] by blast

lemma bb_run_Returns:
  "run_calls (\<lambda>_. bb_ERROR_CHECK ok) steps w = Returns u w' \<Longrightarrow>
     self w' = self w \<and> device w' = device w \<and> out w' = out w"
  using run_calls_Returns [OF is_check_bb] by blast

lemma bb_config_eq:
  "bb_config a = bb_config a' \<longleftrightarrow>
     bb_handle a = bb_handle a' \<and> bb_center a = bb_center a' \<and> bb_reflevel a = bb_reflevel a' \<and> bb_decimation a = bb_decimation a' \<and> bb_bandwidth a = bb_bandwidth a' \<and> bb_purge a = bb_purge a'"
  by (cases a; cases a') (auto simp: bb_config_def)

lemma bb_new_returns:
  "bb_new ok center reflevel decimation bandwidth purge dev mem = Returns u w \<Longrightarrow>
     bb_param_changed (self w) \<and> bb_buffer (self w) = None \<and> bb_len (self w) = 0
   \<and> bb_center (self w) = center \<and> bb_reflevel (self w) = reflevel \<and> bb_decimation (self w) = decimation \<and> bb_bandwidth (self w) = bandwidth \<and> bb_purge (self w) = purge
   \<and> bb_handle (self w) = rhandle (dev 0) \<and> device w = dev \<and> out w = mem"
  apply (unfold bb_new_def Let_def)
  apply (drule andthen_Returns, clarify)
  apply (drule andthen_Returns, clarify)
  apply (frule bb_check_Returns)
  apply (frule bb_run_Returns)
  apply (auto simp: next_reply_def)
  done

lemma bb_setter_effects:
  "self (bb_set_center center w) = (self w)\<lparr>bb_center := center, bb_param_changed := True\<rparr>"
  "self (bb_set_reflevel reflevel w) = (self w)\<lparr>bb_reflevel := reflevel, bb_param_changed := True\<rparr>"
  "self (bb_set_decimation decimation w) = (self w)\<lparr>bb_decimation := decimation, bb_param_changed := True\<rparr>"
  "self (bb_set_bandwidth bandwidth w) = (self w)\<lparr>bb_bandwidth := bandwidth, bb_param_changed := True\<rparr>"
  "self (bb_set_purge purge w) = (self w)\<lparr>bb_purge := purge\<rparr>"
  by (simp_all add: bb_set_center_def bb_set_reflevel_def bb_set_decimation_def bb_set_bandwidth_def bb_set_purge_def Let_def)

lemma bb_setter_traces:
  "trace (bb_set_center center w) = trace w @ [Lock, Wr M_center, Wr M_param_changed, Unlock]"
  "trace (bb_set_reflevel reflevel w) = trace w @ [Lock, Wr M_reflevel, Wr M_param_changed, Unlock]"
  "trace (bb_set_decimation decimation w) = trace w @ [Lock, Wr M_decimation, Wr M_param_changed, Unlock]"
  "trace (bb_set_bandwidth bandwidth w) = trace w @ [Lock, Wr M_bandwidth, Wr M_param_changed, Unlock]"
  "trace (bb_set_purge purge w) = trace w @ [Lock, Wr M_purge, Unlock]"
  by (simp_all add: bb_set_center_def bb_set_reflevel_def bb_set_decimation_def bb_set_bandwidth_def bb_set_purge_def Let_def)

lemma bb_setter_frame:
  "device (bb_set_center center w) = device w" "out (bb_set_center center w) = out w"
  "device (bb_set_reflevel reflevel w) = device w" "out (bb_set_reflevel reflevel w) = out w"
  "device (bb_set_decimation decimation w) = device w" "out (bb_set_decimation decimation w) = out w"
  "device (bb_set_bandwidth bandwidth w) = device w" "out (bb_set_bandwidth bandwidth w) = out w"
  "device (bb_set_purge purge w) = device w" "out (bb_set_purge purge w) = out w"
  by (simp_all add: bb_set_center_def bb_set_reflevel_def bb_set_decimation_def bb_set_bandwidth_def bb_set_purge_def Let_def)

lemma bb_fold_setters:
  "bb_center (self (fold bb_call cmds w)) =
       last_or (bb_center (self w)) [x. Bb_set_center x \<leftarrow> cmds]
   \<and> bb_reflevel (self (fold bb_call cmds w)) =
       last_or (bb_reflevel (self w)) [x. Bb_set_reflevel x \<leftarrow> cmds]
   \<and> bb_decimation (self (fold bb_call cmds w)) =
       last_or (bb_decimation (self w)) [x. Bb_set_decimation x \<leftarrow> cmds]
   \<and> bb_bandwidth (self (fold bb_call cmds w)) =
       last_or (bb_bandwidth (self w)) [x. Bb_set_bandwidth x \<leftarrow> cmds]
   \<and> bb_purge (self (fold bb_call cmds w)) =
       last_or (bb_purge (self w)) [x. Bb_set_purge x \<leftarrow> cmds]
   \<and> bb_handle (self (fold bb_call cmds w)) = bb_handle (self w)
   \<and> bb_buffer (self (fold bb_call cmds w)) = bb_buffer (self w)
   \<and> bb_len (self (fold bb_call cmds w)) = bb_len (self w)
   \<and> bb_param_changed (self (fold bb_call cmds w)) =
       (bb_param_changed (self w) \<or> (\<exists>c \<in> set cmds. bb_marks c))
   \<and> device (fold bb_call cmds w) = device w
   \<and> out (fold bb_call cmds w) = out w"
proof (induction cmds arbitrary: w)
  case Nil
  show ?case by (simp add: last_or_def)
next
  case (Cons c cs)
  show ?case
    by (cases c) (simp_all add: Cons.IH bb_setter_effects bb_setter_frame last_or_Cons)
qed

section \<open>Facts about the SM receiver\<close>

lemma sm_configure_frame:
  "self (final (sm_configure ok w)) = self w \<and> out (final (sm_configure ok w)) = out w
    \<and> device (final (sm_configure ok w)) = device w"
  using run_calls_frame [OF is_check_sm, of ok "sm_configure_steps (self w)" "emit Lock w"]
  by (cases "run_calls (sm_ERROR_CHECK ok) (sm_configure_steps (self w)) (emit Lock w)")
     (simp_all add: sm_configure_def Let_def)

lemma sm_configure_not_thrown: "sm_configure ok w \<noteq> Thrown w'"
  using run_calls_not_thrown [OF is_check_sm, of ok "sm_configure_steps (self w)" "emit Lock w"]
  by (cases "run_calls (sm_ERROR_CHECK ok) (sm_configure_steps (self w)) (emit Lock w)")
     (simp_all add: sm_configure_def Let_def)

lemma sm_configure_events:
  "\<exists>es. trace (final (sm_configure ok w)) = trace w @ Lock # es
      \<and> prefix (calls_of es) (step_calls (sm_configure_steps (self w)))
      \<and> calls_of es \<noteq> []
      \<and> allocs_of es = []
      \<and> (aborted (sm_configure ok w) \<longrightarrow> (\<exists>st \<in> set (statuses_of es). st < ok))
      \<and> (\<not> aborted (sm_configure ok w) \<longrightarrow>
            calls_of es = step_calls (sm_configure_steps (self w))
          \<and> (\<forall>st \<in> set (statuses_of es). ok \<le> st))"
proof -
  let ?r = "run_calls (sm_ERROR_CHECK ok) (sm_configure_steps (self w)) (emit Lock w)"
  from run_calls_events [OF is_check_sm, of ok "sm_configure_steps (self w)" "emit Lock w"]
  obtain es where es: "trace (final ?r) = trace (emit Lock w) @ es"
    "prefix (calls_of es) (step_calls (sm_configure_steps (self w)))"
    "sm_configure_steps (self w) \<noteq> [] \<longrightarrow> calls_of es \<noteq> []"
    "allocs_of es = []"
    "aborted ?r \<longrightarrow> (\<exists>st \<in> set (statuses_of es). st < ok)"
    "\<not> aborted ?r \<longrightarrow> calls_of es = step_calls (sm_configure_steps (self w))
          \<and> (\<forall>st \<in> set (statuses_of es). ok \<le> st)"
    by blast
  have ne: "sm_configure_steps (self w) \<noteq> []" by (simp add: sm_configure_steps_def)
  show ?thesis
  proof (cases ?r)
    case (Returns u w1)
    with es ne show ?thesis
      by (intro exI [of _ "es @ [Stdout ''Sample Rate: '', Stdout ''Actual Bandwidth: '', Unlock]"])
         (simp add: sm_configure_def Let_def)
  next
    case (Aborted w1)
    with es ne show ?thesis
      by (intro exI [of _ es]) (simp add: sm_configure_def Let_def)
  next
    case (Thrown w1)
    with run_calls_not_thrown [OF is_check_sm] show ?thesis by blast
  qed
qed

lemma sm_transfer_events:
  "\<exists>es. trace (final (sm_transfer ok n w)) = trace w @ es
      \<and> device (final (sm_transfer ok n w)) = device w
      \<and> Lock \<notin> set es
      \<and> allocs_of es = realloc_events (sm_buffer (self w)) (sm_len (self w)) n
      \<and> sm_param_changed (self (final (sm_transfer ok n w))) = sm_param_changed (self w)
      \<and> prefix (calls_of es) [SmGetIQ (sm_handle (self w)) n (sm_purge (self w))]
      \<and> (aborted (sm_transfer ok n w) \<longrightarrow> (\<exists>st \<in> set (statuses_of es). st < ok))
      \<and> (\<not> aborted (sm_transfer ok n w) \<longrightarrow> (\<forall>st \<in> set (statuses_of es). ok \<le> st))
      \<and> (thrown (sm_transfer ok n w) \<longrightarrow> n < 0)
      \<and> (aborted (sm_transfer ok n w) \<or> thrown (sm_transfer ok n w) \<longrightarrow>
            out (final (sm_transfer ok n w)) = out w)
      \<and> (\<not> aborted (sm_transfer ok n w) \<and> \<not> thrown (sm_transfer ok n w) \<longrightarrow>
            calls_of es = [SmGetIQ (sm_handle (self w)) n (sm_purge (self w))])"
  unfolding sm_transfer_def sm_allocate_def sm_get_iq_def sm_ERROR_CHECK_def sm_move_def
    realloc_events_def Let_def
  by (auto simp: next_reply_def)


lemma sm_allocate_returns:
  "sm_allocate n w = Returns u w1 \<Longrightarrow>
     (\<exists>b. sm_buffer (self w1) = Some b \<and> (sm_inv (self w) \<longrightarrow> int (length b) = n))
     \<and> sm_len (self w1) = n \<and> sm_config (self w1) = sm_config (self w)
     \<and> sm_param_changed (self w1) = sm_param_changed (self w)
     \<and> out w1 = out w \<and> device w1 = device w \<and> ncalls w1 = ncalls w"
  unfolding sm_allocate_def Let_def
  by (auto simp: sm_inv_def sm_config_def split: if_splits)

lemma sm_get_iq_returns:
  "sm_get_iq ok n w = Returns u w1 \<Longrightarrow>
     sm_buffer (self w1) =
         map_option (device_fill n (riq (device w (ncalls w)))) (sm_buffer (self w))
     \<and> sm_len (self w1) = sm_len (self w) \<and> sm_config (self w1) = sm_config (self w)
     \<and> sm_param_changed (self w1) = sm_param_changed (self w)
     \<and> out w1 = out w"
  unfolding sm_get_iq_def sm_ERROR_CHECK_def Let_def
  by (auto simp: next_reply_def sm_config_def split: if_splits)

lemma sm_transfer_returns:
  "sm_transfer ok n w = Returns v w' \<Longrightarrow>
     v = n \<and> sm_len (self w') = n \<and> sm_config (self w') = sm_config (self w)
         \<and> sm_param_changed (self w') = sm_param_changed (self w)
         \<and> (\<exists>b. sm_buffer (self w') = Some b
           \<and> (sm_inv (self w) \<longrightarrow> int (length b) = n)
           \<and> out w' = (\<lambda>k. if int k < n then b ! k else out w k))"
proof -
  assume a: "sm_transfer ok n w = Returns v w'"
  then obtain w1 where w1: "sm_allocate n w = Returns () w1"
    by (cases "sm_allocate n w") (simp_all add: sm_transfer_def)
  with a obtain w2 where w2: "sm_get_iq ok n w1 = Returns () w2"
    by (cases "sm_get_iq ok n w1") (simp_all add: sm_transfer_def)
  from a w1 w2 have r: "v = n" "w' = sm_move n w2"
    by (auto simp: sm_transfer_def)
  from sm_allocate_returns [OF w1] obtain b where b:
    "sm_buffer (self w1) = Some b" "sm_inv (self w) \<longrightarrow> int (length b) = n"
    "sm_len (self w1) = n" "sm_config (self w1) = sm_config (self w)"
    "sm_param_changed (self w1) = sm_param_changed (self w)" "out w1 = out w"
    by blast
  from sm_get_iq_returns [OF w2] b have s2:
    "sm_buffer (self w2) = Some (device_fill n (riq (device w1 (ncalls w1))) b)"
    "sm_len (self w2) = n" "sm_config (self w2) = sm_config (self w)"
    "sm_param_changed (self w2) = sm_param_changed (self w)" "out w2 = out w"
    by simp_all
  show ?thesis
    using r s2 b(2)
    by (simp add: sm_move_def copy_loop_eq cells_def)
qed


lemma sm_work_cases:
  obtains (clean) "\<not> sm_param_changed (self w)"
      "sm_work ok n w = sm_transfer ok n (emit (Rd M_param_changed) w)"
  | (fatal) w1 where "sm_param_changed (self w)"
      "sm_configure ok (emit (Rd M_param_changed) w) = Aborted w1"
      "sm_work ok n w = Aborted w1"
  | (fresh) w1 where "sm_param_changed (self w)"
      "sm_configure ok (emit (Rd M_param_changed) w) = Returns () w1"
      "sm_work ok n w = sm_transfer ok n (sm_clear w1)"
proof (cases "sm_param_changed (self w)")
  case False
  then show thesis using clean by (simp add: sm_work_def Let_def)
next
  case True
  show thesis
  proof (cases "sm_configure ok (emit (Rd M_param_changed) w)")
    case (Returns u w1)
    with True show thesis using fresh [of w1] by (simp add: sm_work_def Let_def)
  next
    case (Aborted w1)
    with True show thesis using fatal [of w1] by (simp add: sm_work_def Let_def)
  next
    case (Thrown w1)
    with sm_configure_not_thrown show thesis by blast
  qed
qed

lemma sm_work_events:
  "\<exists>es. trace (final (sm_work ok n w)) = trace w @ Rd M_param_changed # es
      \<and> device (final (sm_work ok n w)) = device w
      \<and> prefix (calls_of es) (sm_hook_calls n (self w))
      \<and> (sm_param_changed (self w) \<longrightarrow> calls_of es \<noteq> [])
      \<and> (\<not> sm_param_changed (self w) \<longrightarrow>
            Lock \<notin> set es
          \<and> allocs_of es = realloc_events (sm_buffer (self w)) (sm_len (self w)) n
          \<and> \<not> sm_param_changed (self (final (sm_work ok n w))))
      \<and> (aborted (sm_work ok n w) \<longrightarrow> (\<exists>st \<in> set (statuses_of es). st < ok))
      \<and> (\<not> aborted (sm_work ok n w) \<longrightarrow> (\<forall>st \<in> set (statuses_of es). ok \<le> st))
      \<and> (thrown (sm_work ok n w) \<longrightarrow> n < 0)
      \<and> (aborted (sm_work ok n w) \<or> thrown (sm_work ok n w) \<longrightarrow>
            out (final (sm_work ok n w)) = out w)
      \<and> (\<not> aborted (sm_work ok n w) \<and> \<not> thrown (sm_work ok n w) \<longrightarrow>
            calls_of es = sm_hook_calls n (self w)
          \<and> allocs_of es = realloc_events (sm_buffer (self w)) (sm_len (self w)) n)"
proof (cases rule: sm_work_cases [of w ok n])
  case clean
  let ?w0 = "emit (Rd M_param_changed) w"
  from sm_transfer_events [of ok n ?w0] obtain es where
    "trace (final (sm_transfer ok n ?w0)) = trace ?w0 @ es"
    "device (final (sm_transfer ok n ?w0)) = device ?w0"
    "Lock \<notin> set es"
    "prefix (calls_of es) [SmGetIQ (sm_handle (self ?w0)) n (sm_purge (self ?w0))]"
    "aborted (sm_transfer ok n ?w0) \<longrightarrow> (\<exists>st \<in> set (statuses_of es). st < ok)"
    "\<not> aborted (sm_transfer ok n ?w0) \<longrightarrow> (\<forall>st \<in> set (statuses_of es). ok \<le> st)"
    "thrown (sm_transfer ok n ?w0) \<longrightarrow> n < 0"
    "aborted (sm_transfer ok n ?w0) \<or> thrown (sm_transfer ok n ?w0) \<longrightarrow>
       out (final (sm_transfer ok n ?w0)) = out ?w0"
    "\<not> aborted (sm_transfer ok n ?w0) \<and> \<not> thrown (sm_transfer ok n ?w0) \<longrightarrow>
       calls_of es = [SmGetIQ (sm_handle (self ?w0)) n (sm_purge (self ?w0))]"
    "allocs_of es = realloc_events (sm_buffer (self ?w0)) (sm_len (self ?w0)) n"
    "sm_param_changed (self (final (sm_transfer ok n ?w0))) = sm_param_changed (self ?w0)"
    by blast
  with clean show ?thesis
    by (intro exI [of _ es]) (simp add: sm_hook_calls_def)
next
  case (fatal w1)
  let ?w0 = "emit (Rd M_param_changed) w"
  from sm_configure_events [of ok ?w0] fatal(2) obtain es where
    "trace w1 = trace ?w0 @ Lock # es"
    "prefix (calls_of es) (step_calls (sm_configure_steps (self ?w0)))"
    "calls_of es \<noteq> []"
    "\<exists>st \<in> set (statuses_of es). st < ok"
    by auto
  moreover have "device w1 = device w" "out w1 = out w"
    using sm_configure_frame [of ok ?w0] fatal(2) by simp_all
  ultimately show ?thesis using fatal
    by (intro exI [of _ "Lock # es"]) (simp add: sm_hook_calls_def)
next
  case (fresh w1)
  let ?w0 = "emit (Rd M_param_changed) w"
  let ?w2 = "sm_clear w1"
  from sm_configure_events [of ok ?w0] fresh(2) obtain es1 where es1:
    "trace w1 = trace ?w0 @ Lock # es1"
    "calls_of es1 = step_calls (sm_configure_steps (self ?w0))"
    "calls_of es1 \<noteq> []"
    "allocs_of es1 = []"
    "\<forall>st \<in> set (statuses_of es1). ok \<le> st"
    by auto
  have fr: "self w1 = self w" "device w1 = device w" "out w1 = out w"
    using sm_configure_frame [of ok ?w0] fresh(2) by simp_all
  from sm_transfer_events [of ok n ?w2] obtain es2 where es2:
    "trace (final (sm_transfer ok n ?w2)) = trace ?w2 @ es2"
    "device (final (sm_transfer ok n ?w2)) = device ?w2"
    "prefix (calls_of es2) [SmGetIQ (sm_handle (self ?w2)) n (sm_purge (self ?w2))]"
    "aborted (sm_transfer ok n ?w2) \<longrightarrow> (\<exists>st \<in> set (statuses_of es2). st < ok)"
    "\<not> aborted (sm_transfer ok n ?w2) \<longrightarrow> (\<forall>st \<in> set (statuses_of es2). ok \<le> st)"
    "thrown (sm_transfer ok n ?w2) \<longrightarrow> n < 0"
    "aborted (sm_transfer ok n ?w2) \<or> thrown (sm_transfer ok n ?w2) \<longrightarrow>
       out (final (sm_transfer ok n ?w2)) = out ?w2"
    "\<not> aborted (sm_transfer ok n ?w2) \<and> \<not> thrown (sm_transfer ok n ?w2) \<longrightarrow>
       calls_of es2 = [SmGetIQ (sm_handle (self ?w2)) n (sm_purge (self ?w2))]"
    "allocs_of es2 = realloc_events (sm_buffer (self ?w2)) (sm_len (self ?w2)) n"
    "sm_param_changed (self (final (sm_transfer ok n ?w2))) = sm_param_changed (self ?w2)"
    by blast
  have s2: "sm_handle (self ?w2) = sm_handle (self w)" "sm_purge (self ?w2) = sm_purge (self w)"
    "sm_buffer (self ?w2) = sm_buffer (self w)" "sm_len (self ?w2) = sm_len (self w)"
    "device ?w2 = device w" "out ?w2 = out w"
    "trace ?w2 = trace w @ Rd M_param_changed # Lock # es1 @ [Wr M_param_changed]"
    using fr es1(1) by (simp_all add: sm_clear_def)
  have c1: "calls_of es1 = step_calls (sm_configure_steps (self w))"
    using es1(2) by simp
  have pc: "calls_of es2 = []
      \<or> calls_of es2 = [SmGetIQ (sm_handle (self w)) n (sm_purge (self w))]"
    using es2(3) [unfolded s2] by (auto simp: prefix_Cons)
  from es2 [unfolded s2] pc es1(3,4,5) c1 fresh(1,3) s2(5,6) show ?thesis
    by (intro exI [of _ "Lock # es1 @ Wr M_param_changed # es2"])
       (simp add: sm_hook_calls_def; blast)
qed

lemma sm_inv_param_changed [simp]: "sm_inv (a\<lparr>sm_param_changed := x\<rparr>) = sm_inv a"
  by (simp add: sm_inv_def split: option.split)

lemma sm_work_returns:
  "sm_work ok n w = Returns v w' \<Longrightarrow>
     v = n \<and> sm_len (self w') = n \<and> sm_config (self w') = sm_config (self w)
         \<and> \<not> sm_param_changed (self w')
         \<and> (\<exists>b. sm_buffer (self w') = Some b
           \<and> (sm_inv (self w) \<longrightarrow> int (length b) = n)
           \<and> out w' = (\<lambda>k. if int k < n then b ! k else out w k))"
proof -
  assume a: "sm_work ok n w = Returns v w'"
  show ?thesis
  proof (cases rule: sm_work_cases [of w ok n])
    case clean
    with a sm_transfer_returns [of ok n "emit (Rd M_param_changed) w" v w']
    show ?thesis by (auto cong: if_cong)
  next
    case (fatal w1)
    with a show ?thesis by simp
  next
    case (fresh w1)
    have fr: "self w1 = self w" "out w1 = out w"
      using sm_configure_frame [of ok "emit (Rd M_param_changed) w"] fresh(2) by simp_all
    with fresh a sm_transfer_returns [of ok n "sm_clear w1" v w']
    show ?thesis by (auto simp: sm_clear_def sm_config_def cong: if_cong)
  qed
qed


lemma sm_work_fatal:
  "Call c st \<in> set (new_events w (final (sm_work ok n w))) \<Longrightarrow> st < ok \<Longrightarrow>
     aborted (sm_work ok n w) \<and> out (final (sm_work ok n w)) = out w"
proof -
  assume c: "Call c st \<in> set (new_events w (final (sm_work ok n w)))" and f: "st < ok"
  from sm_work_events [of ok n w] obtain es where es:
    "trace (final (sm_work ok n w)) = trace w @ Rd M_param_changed # es"
    "\<not> aborted (sm_work ok n w) \<longrightarrow> (\<forall>st \<in> set (statuses_of es). ok \<le> st)"
    "aborted (sm_work ok n w) \<or> thrown (sm_work ok n w) \<longrightarrow>
       out (final (sm_work ok n w)) = out w"
    by blast
  from c es(1) have "Call c st \<in> set es" by simp
  then have "st \<in> set (statuses_of es)" by (rule status_of_call)
  with f es(2) have "aborted (sm_work ok n w)" by force
  with es(3) show ?thesis by simp
qed

lemma sm_work_completes:
  "\<forall>st \<in> set (statuses_of (new_events w (final (sm_work ok n w)))). ok \<le> st \<Longrightarrow> 0 \<le> n \<Longrightarrow>
     \<exists>w'. sm_work ok n w = Returns n w'"
proof -
  assume a: "\<forall>st \<in> set (statuses_of (new_events w (final (sm_work ok n w)))). ok \<le> st"
    and n: "0 \<le> n"
  from sm_work_events [of ok n w] obtain es where es:
    "trace (final (sm_work ok n w)) = trace w @ Rd M_param_changed # es"
    "aborted (sm_work ok n w) \<longrightarrow> (\<exists>st \<in> set (statuses_of es). st < ok)"
    "thrown (sm_work ok n w) \<longrightarrow> n < 0"
    by blast
  from a es(1) have "\<forall>st \<in> set (statuses_of es). ok \<le> st" by simp
  with es(2) have "\<not> aborted (sm_work ok n w)" by force
  moreover from es(3) n have "\<not> thrown (sm_work ok n w)" by auto
  ultimately obtain v w' where r: "sm_work ok n w = Returns v w'"
    using res_cases3 by blast
  with sm_work_returns [OF r] show ?thesis by simp
qed

lemma sm_inv_work:
  "sm_inv (self w) \<Longrightarrow> sm_work ok n w = Returns v w' \<Longrightarrow> sm_inv (self w')"
  using sm_work_returns [of ok n w v w'] by (auto simp: sm_inv_def)

lemma sm_check_Returns:
  "sm_ERROR_CHECK ok nm st w = Returns u w' \<Longrightarrow>
     self w' = self w \<and> device w' = device w \<and> out w' = out w"
  using check_Returns [OF is_check_sm] by blast

lemma sm_run_Returns:
  "run_calls (sm_ERROR_CHECK ok) steps w = Returns u w' \<Longrightarrow>
     self w' = self w \<and> device w' = device w \<and> out w' = out w"
  using run_calls_Returns [OF is_check_sm] by blast

lemma sm_config_eq:
  "sm_config a = sm_config a' \<longleftrightarrow>
     sm_handle a = sm_handle a' \<and> sm_center a = sm_center a' \<and> sm_reflevel a = sm_reflevel a' \<and> sm_atten a = sm_atten a' \<and> sm_decimation a = sm_decimation a' \<and> sm_bandwidth a = sm_bandwidth a' \<and> sm_swfilter a = sm_swfilter a' \<and> sm_purge a = sm_purge a'"
  by (cases a; cases a') (auto simp: sm_config_def)

lemma sm_new_returns:
  "sm_new ok center reflevel atten decimation swfilter purge bandwidth dev mem = Returns u w \<Longrightarrow>
     sm_param_changed (self w) \<and> sm_buffer (self w) = None \<and> sm_len (self w) = 0
   \<and> sm_center (self w) = center \<and> sm_reflevel (self w) = reflevel \<and> sm_atten (self w) = atten \<and> sm_decimation (self w) = decimation \<and> sm_bandwidth (self w) = bandwidth \<and> sm_swfilter (self w) = swfilter \<and> sm_purge (self w) = purge
   \<and> sm_handle (self w) = rhandle (dev 0) \<and> device w = dev \<and> out w = mem"
  apply (unfold sm_new_def Let_def)
  apply (drule andthen_Returns, clarify)
  apply (drule andthen_Returns, clarify)
  apply (frule sm_check_Returns)
  apply (frule sm_run_Returns)
  apply (auto simp: next_reply_def)
  done

lemma sm_setter_effects:
  "self (sm_set_center center w) = (self w)\<lparr>sm_center := center, sm_param_changed := True\<rparr>"
  "self (sm_set_reflevel reflevel w) = (self w)\<lparr>sm_reflevel := reflevel, sm_param_changed := True\<rparr>"
  "self (sm_set_atten atten w) = (self w)\<lparr>sm_atten := atten, sm_param_changed := True\<rparr>"
  "self (sm_set_decimation decimation w) = (self w)\<lparr>sm_decimation := decimation, sm_param_changed := True\<rparr>"
  "self (sm_set_bandwidth bandwidth w) = (self w)\<lparr>sm_bandwidth := bandwidth, sm_param_changed := True\<rparr>"
  "self (sm_set_swfilter swfilter w) = (self w)\<lparr>sm_swfilter := swfilter, sm_param_changed := True\<rparr>"
  "self (sm_set_purge purge w) = (self w)\<lparr>sm_purge := purge\<rparr>"
  by (simp_all add: sm_set_center_def sm_set_reflevel_def sm_set_atten_def sm_set_decimation_def sm_set_bandwidth_def sm_set_swfilter_def sm_set_purge_def Let_def)

lemma sm_setter_traces:
  "trace (sm_set_center center w) = trace w @ [Lock, Wr M_center, Wr M_param_changed, Unlock]"
  "trace (sm_set_reflevel reflevel w) = trace w @ [Lock, Wr M_reflevel, Wr M_param_changed, Unlock]"
  "trace (sm_set_atten atten w) = trace w @ [Lock, Wr M_atten, Wr M_param_changed, Unlock]"
  "trace (sm_set_decimation decimation w) = trace w @ [Lock, Wr M_decimation, Wr M_param_changed, Unlock]"
  "trace (sm_set_bandwidth bandwidth w) = trace w @ [Lock, Wr M_bandwidth, Wr M_param_changed, Unlock]"
  "trace (sm_set_swfilter swfilter w) = trace w @ [Lock, Wr M_swfilter, Wr M_param_changed, Unlock]"
  "trace (sm_set_purge purge w) = trace w @ [Lock, Wr M_purge, Unlock]"
  by (simp_all add: sm_set_center_def sm_set_reflevel_def sm_set_atten_def sm_set_decimation_def sm_set_bandwidth_def sm_set_swfilter_def sm_set_purge_def Let_def)

lemma sm_setter_frame:
  "device (sm_set_center center w) = device w" "out (sm_set_center center w) = out w"
  "device (sm_set_reflevel reflevel w) = device w" "out (sm_set_reflevel reflevel w) = out w"
  "device (sm_set_atten atten w) = device w" "out (sm_set_atten atten w) = out w"
  "device (sm_set_decimation decimation w) = device w" "out (sm_set_decimation decimation w) = out w"
  "device (sm_set_bandwidth bandwidth w) = device w" "out (sm_set_bandwidth bandwidth w) = out w"
  "device (sm_set_swfilter swfilter w) = device w" "out (sm_set_swfilter swfilter w) = out w"
  "device (sm_set_purge purge w) = device w" "out (sm_set_purge purge w) = out w"
  by (simp_all add: sm_set_center_def sm_set_reflevel_def sm_set_atten_def sm_set_decimation_def sm_set_bandwidth_def sm_set_swfilter_def sm_set_purge_def Let_def)

lemma sm_fold_setters:
  "sm_center (self (fold sm_call cmds w)) =
       last_or (sm_center (self w)) [x. Sm_set_center x \<leftarrow> cmds]
   \<and> sm_reflevel (self (fold sm_call cmds w)) =
       last_or (sm_reflevel (self w)) [x. Sm_set_reflevel x \<leftarrow> cmds]
   \<and> sm_atten (self (fold sm_call cmds w)) =
       last_or (sm_atten (self w)) [x. Sm_set_atten x \<leftarrow> cmds]
   \<and> sm_decimation (self (fold sm_call cmds w)) =
       last_or (sm_decimation (self w)) [x. Sm_set_decimation x \<leftarrow> cmds]
   \<and> sm_bandwidth (self (fold sm_call cmds w)) =
       last_or (sm_bandwidth (self w)) [x. Sm_set_bandwidth x \<leftarrow> cmds]
   \<and> sm_swfilter (self (fold sm_call cmds w)) =
       last_or (sm_swfilter (self w)) [x. Sm_set_swfilter x \<leftarrow> cmds]
   \<and> sm_purge (self (fold sm_call cmds w)) =
       last_or (sm_purge (self w)) [x. Sm_set_purge x \<leftarrow> cmds]
   \<and> sm_handle (self (fold sm_call cmds w)) = sm_handle (self w)
   \<and> sm_buffer (self (fold sm_call cmds w)) = sm_buffer (self w)
   \<and> sm_len (self (fold sm_call cmds w)) = sm_len (self w)
   \<and> sm_param_changed (self (fold sm_call cmds w)) =
       (sm_param_changed (self w) \<or> (\<exists>c \<in> set cmds. sm_marks c))
   \<and> device (fold sm_call cmds w) = device w
   \<and> out (fold sm_call cmds w) = out w"
proof (induction cmds arbitrary: w)
  case Nil
  show ?case by (simp add: last_or_def)
next
  case (Cons c cs)
  show ?case
    by (cases c) (simp_all add: Cons.IH sm_setter_effects sm_setter_frame last_or_Cons)
qed

section \<open>Facts about the SP receiver\<close>

lemma sp_configure_frame:
  "self (final (sp_configure w)) = self w \<and> out (final (sp_configure w)) = out w
    \<and> device (final (sp_configure w)) = device w"
  using run_calls_frame [OF is_check_sp, of "sp_configure_steps (self w)" "emit Lock w"]
  by (cases "run_calls (\<lambda>_. sp_ERROR_CHECK) (sp_configure_steps (self w)) (emit Lock w)")
     (simp_all add: sp_configure_def Let_def)

lemma sp_configure_not_thrown: "sp_configure w \<noteq> Thrown w'"
  using run_calls_not_thrown [OF is_check_sp, of "sp_configure_steps (self w)" "emit Lock w"]
  by (cases "run_calls (\<lambda>_. sp_ERROR_CHECK) (sp_configure_steps (self w)) (emit Lock w)")
     (simp_all add: sp_configure_def Let_def)

lemma sp_configure_events:
  "\<exists>es. trace (final (sp_configure w)) = trace w @ Lock # es
      \<and> prefix (calls_of es) (step_calls (sp_configure_steps (self w)))
      \<and> calls_of es \<noteq> []
      \<and> allocs_of es = []
      \<and> (aborted (sp_configure w) \<longrightarrow> (\<exists>st \<in> set (statuses_of es). st < spNoError))
      \<and> (\<not> aborted (sp_configure w) \<longrightarrow>
            calls_of es = step_calls (sp_configure_steps (self w))
          \<and> (\<forall>st \<in> set (statuses_of es). spNoError \<le> st))"
proof -
  let ?r = "run_calls (\<lambda>_. sp_ERROR_CHECK) (sp_configure_steps (self w)) (emit Lock w)"
  from run_calls_events [OF is_check_sp, of "sp_configure_steps (self w)" "emit Lock w"]
  obtain es where es: "trace (final ?r) = trace (emit Lock w) @ es"
    "prefix (calls_of es) (step_calls (sp_configure_steps (self w)))"
    "sp_configure_steps (self w) \<noteq> [] \<longrightarrow> calls_of es \<noteq> []"
    "allocs_of es = []"
    "aborted ?r \<longrightarrow> (\<exists>st \<in> set (statuses_of es). st < spNoError)"
    "\<not> aborted ?r \<longrightarrow> calls_of es = step_calls (sp_configure_steps (self w))
          \<and> (\<forall>st \<in> set (statuses_of es). spNoError \<le> st)"
    by blast
  have ne: "sp_configure_steps (self w) \<noteq> []" by (simp add: sp_configure_steps_def)
  show ?thesis
  proof (cases ?r)
    case (Returns u w1)
    with es ne show ?thesis
      by (intro exI [of _ "es @ [Stdout ''Sample Rate: '', Stdout ''Actual Bandwidth: '', Unlock]"])
         (simp add: sp_configure_def Let_def)
  next
    case (Aborted w1)
    with es ne show ?thesis
      by (intro exI [of _ es]) (simp add: sp_configure_def Let_def)
  next
    case (Thrown w1)
    with run_calls_not_thrown [OF is_check_sp] show ?thesis by blast
  qed
qed

lemma sp_transfer_events:
  "\<exists>es. trace (final (sp_transfer n w)) = trace w @ es
      \<and> device (final (sp_transfer n w)) = device w
      \<and> Lock \<notin> set es
      \<and> allocs_of es = realloc_events (sp_buffer (self w)) (sp_len (self w)) n
      \<and> sp_param_changed (self (final (sp_transfer n w))) = sp_param_changed (self w)
      \<and> prefix (calls_of es) [SpGetIQ (sp_handle (self w)) n (sp_purge (self w))]
      \<and> (aborted (sp_transfer n w) \<longrightarrow> (\<exists>st \<in> set (statuses_of es). st < spNoError))
      \<and> (\<not> aborted (sp_transfer n w) \<longrightarrow> (\<forall>st \<in> set (statuses_of es). spNoError \<le> st))
      \<and> (thrown (sp_transfer n w) \<longrightarrow> n < 0)
      \<and> (aborted (sp_transfer n w) \<or> thrown (sp_transfer n w) \<longrightarrow>
            out (final (sp_transfer n w)) = out w)
      \<and> (\<not> aborted (sp_transfer n w) \<and> \<not> thrown (sp_transfer n w) \<longrightarrow>
            calls_of es = [SpGetIQ (sp_handle (self w)) n (sp_purge (self w))])"
  unfolding sp_transfer_def sp_allocate_def sp_get_iq_def sp_ERROR_CHECK_def sp_move_def
    realloc_events_def Let_def
  by (auto simp: next_reply_def)


lemma sp_allocate_returns:
  "sp_allocate n w = Returns u w1 \<Longrightarrow>
     (\<exists>b. sp_buffer (self w1) = Some b \<and> (sp_inv (self w) \<longrightarrow> int (length b) = n))
     \<and> sp_len (self w1) = n \<and> sp_config (self w1) = sp_config (self w)
     \<and> sp_param_changed (self w1) = sp_param_changed (self w)
     \<and> out w1 = out w \<and> device w1 = device w \<and> ncalls w1 = ncalls w"
  unfolding sp_allocate_def Let_def
  by (auto simp: sp_inv_def sp_config_def split: if_splits)

lemma sp_get_iq_returns:
  "sp_get_iq n w = Returns u w1 \<Longrightarrow>
     sp_buffer (self w1) =
         map_option (device_fill n (riq (device w (ncalls w)))) (sp_buffer (self w))
     \<and> sp_len (self w1) = sp_len (self w) \<and> sp_config (self w1) = sp_config (self w)
     \<and> sp_param_changed (self w1) = sp_param_changed (self w)
     \<and> out w1 = out w"
  unfolding sp_get_iq_def sp_ERROR_CHECK_def Let_def
  by (auto simp: next_reply_def sp_config_def split: if_splits)

lemma sp_transfer_returns:
  "sp_transfer n w = Returns v w' \<Longrightarrow>
     v = n \<and> sp_len (self w') = n \<and> sp_config (self w') = sp_config (self w)
         \<and> sp_param_changed (self w') = sp_param_changed (self w)
         \<and> (\<exists>b. sp_buffer (self w') = Some b
           \<and> (sp_inv (self w) \<longrightarrow> int (length b) = n)
           \<and> out w' = (\<lambda>k. if int k < n then b ! k else out w k))"
proof -
  assume a: "sp_transfer n w = Returns v w'"
  then obtain w1 where w1: "sp_allocate n w = Returns () w1"
    by (cases "sp_allocate n w") (simp_all add: sp_transfer_def)
  with a obtain w2 where w2: "sp_get_iq n w1 = Returns () w2"
    by (cases "sp_get_iq n w1") (simp_all add: sp_transfer_def)
  from a w1 w2 have r: "v = n" "w' = sp_move n w2"
    by (auto simp: sp_transfer_def)
  from sp_allocate_returns [OF w1] obtain b where b:
    "sp_buffer (self w1) = Some b" "sp_inv (self w) \<longrightarrow> int (length b) = n"
    "sp_len (self w1) = n" "sp_config (self w1) = sp_config (self w)"
    "sp_param_changed (self w1) = sp_param_changed (self w)" "out w1 = out w"
    by blast
  from sp_get_iq_returns [OF w2] b have s2:
    "sp_buffer (self w2) = Some (device_fill n (riq (device w1 (ncalls w1))) b)"
    "sp_len (self w2) = n" "sp_config (self w2) = sp_config (self w)"
    "sp_param_changed (self w2) = sp_param_changed (self w)" "out w2 = out w"
    by simp_all
  show ?thesis
    using r s2 b(2)
    by (simp add: sp_move_def copy_loop_eq cells_def)
qed


lemma sp_work_cases:
  obtains (clean) "\<not> sp_param_changed (self w)"
      "sp_work n w = sp_transfer n (emit (Rd M_param_changed) w)"
  | (fatal) w1 where "sp_param_changed (self w)"
      "sp_configure (emit (Rd M_param_changed) w) = Aborted w1"
      "sp_work n w = Aborted w1"
  | (fresh) w1 where "sp_param_changed (self w)"
      "sp_configure (emit (Rd M_param_changed) w) = Returns () w1"
      "sp_work n w = sp_transfer n (sp_clear w1)"
proof (cases "sp_param_changed (self w)")
  case False
  then show thesis using clean by (simp add: sp_work_def Let_def)
next
  case True
  show thesis
  proof (cases "sp_configure (emit (Rd M_param_changed) w)")
    case (Returns u w1)
    with True show thesis using fresh [of w1] by (simp add: sp_work_def Let_def)
  next
    case (Aborted w1)
    with True show thesis using fatal [of w1] by (simp add: sp_work_def Let_def)
  next
    case (Thrown w1)
    with sp_configure_not_thrown show thesis by blast
  qed
qed

lemma sp_work_events:
  "\<exists>es. trace (final (sp_work n w)) = trace w @ Rd M_param_changed # es
      \<and> device (final (sp_work n w)) = device w
      \<and> prefix (calls_of es) (sp_hook_calls n (self w))
      \<and> (sp_param_changed (self w) \<longrightarrow> calls_of es \<noteq> [])
      \<and> (\<not> sp_param_changed (self w) \<longrightarrow>
            Lock \<notin> set es
          \<and> allocs_of es = realloc_events (sp_buffer (self w)) (sp_len (self w)) n
          \<and> \<not> sp_param_changed (self (final (sp_work n w))))
      \<and> (aborted (sp_work n w) \<longrightarrow> (\<exists>st \<in> set (statuses_of es). st < spNoError))
      \<and> (\<not> aborted (sp_work n w) \<longrightarrow> (\<forall>st \<in> set (statuses_of es). spNoError \<le> st))
      \<and> (thrown (sp_work n w) \<longrightarrow> n < 0)
      \<and> (aborted (sp_work n w) \<or> thrown (sp_work n w) \<longrightarrow>
            out (final (sp_work n w)) = out w)
      \<and> (\<not> aborted (sp_work n w) \<and> \<not> thrown (sp_work n w) \<longrightarrow>
            calls_of es = sp_hook_calls n (self w)
          \<and> allocs_of es = realloc_events (sp_buffer (self w)) (sp_len (self w)) n)"
proof (cases rule: sp_work_cases [of w n])
  case clean
  let ?w0 = "emit (Rd M_param_changed) w"
  from sp_transfer_events [of n ?w0] obtain es where
    "trace (final (sp_transfer n ?w0)) = trace ?w0 @ es"
    "device (final (sp_transfer n ?w0)) = device ?w0"
    "Lock \<notin> set es"
    "prefix (calls_of es) [SpGetIQ (sp_handle (self ?w0)) n (sp_purge (self ?w0))]"
    "aborted (sp_transfer n ?w0) \<longrightarrow> (\<exists>st \<in> set (statuses_of es). st < spNoError)"
    "\<not> aborted (sp_transfer n ?w0) \<longrightarrow> (\<forall>st \<in> set (statuses_of es). spNoError \<le> st)"
    "thrown (sp_transfer n ?w0) \<longrightarrow> n < 0"
    "aborted (sp_transfer n ?w0) \<or> thrown (sp_transfer n ?w0) \<longrightarrow>
       out (final (sp_transfer n ?w0)) = out ?w0"
    "\<not> aborted (sp_transfer n ?w0) \<and> \<not> thrown (sp_transfer n ?w0) \<longrightarrow>
       calls_of es = [SpGetIQ (sp_handle (self ?w0)) n (sp_purge (self ?w0))]"
    "allocs_of es = realloc_events (sp_buffer (self ?w0)) (sp_len (self ?w0)) n"
    "sp_param_changed (self (final (sp_transfer n ?w0))) = sp_param_changed (self ?w0)"
    by blast
  with clean show ?thesis
    by (intro exI [of _ es]) (simp add: sp_hook_calls_def)
next
  case (fatal w1)
  let ?w0 = "emit (Rd M_param_changed) w"
  from sp_configure_events [of ?w0] fatal(2) obtain es where
    "trace w1 = trace ?w0 @ Lock # es"
    "prefix (calls_of es) (step_calls (sp_configure_steps (self ?w0)))"
    "calls_of es \<noteq> []"
    "\<exists>st \<in> set (statuses_of es). st < spNoError"
    by auto
  moreover have "device w1 = device w" "out w1 = out w"
    using sp_configure_frame [of ?w0] fatal(2) by simp_all
  ultimately show ?thesis using fatal
    by (intro exI [of _ "Lock # es"]) (simp add: sp_hook_calls_def)
next
  case (fresh w1)
  let ?w0 = "emit (Rd M_param_changed) w"
  let ?w2 = "sp_clear w1"
  from sp_configure_events [of ?w0] fresh(2) obtain es1 where es1:
    "trace w1 = trace ?w0 @ Lock # es1"
    "calls_of es1 = step_calls (sp_configure_steps (self ?w0))"
    "calls_of es1 \<noteq> []"
    "allocs_of es1 = []"
    "\<forall>st \<in> set (statuses_of es1). spNoError \<le> st"
    by auto
  have fr: "self w1 = self w" "device w1 = device w" "out w1 = out w"
    using sp_configure_frame [of ?w0] fresh(2) by simp_all
  from sp_transfer_events [of n ?w2] obtain es2 where es2:
    "trace (final (sp_transfer n ?w2)) = trace ?w2 @ es2"
    "device (final (sp_transfer n ?w2)) = device ?w2"
    "prefix (calls_of es2) [SpGetIQ (sp_handle (self ?w2)) n (sp_purge (self ?w2))]"
    "aborted (sp_transfer n ?w2) \<longrightarrow> (\<exists>st \<in> set (statuses_of es2). st < spNoError)"
    "\<not> aborted (sp_transfer n ?w2) \<longrightarrow> (\<forall>st \<in> set (statuses_of es2). spNoError \<le> st)"
    "thrown (sp_transfer n ?w2) \<longrightarrow> n < 0"
    "aborted (sp_transfer n ?w2) \<or> thrown (sp_transfer n ?w2) \<longrightarrow>
       out (final (sp_transfer n ?w2)) = out ?w2"
    "\<not> aborted (sp_transfer n ?w2) \<and> \<not> thrown (sp_transfer n ?w2) \<longrightarrow>
       calls_of es2 = [SpGetIQ (sp_handle (self ?w2)) n (sp_purge (self ?w2))]"
    "allocs_of es2 = realloc_events (sp_buffer (self ?w2)) (sp_len (self ?w2)) n"
    "sp_param_changed (self (final (sp_transfer n ?w2))) = sp_param_changed (self ?w2)"
    by blast
  have s2: "sp_handle (self ?w2) = sp_handle (self w)" "sp_purge (self ?w2) = sp_purge (self w)"
    "sp_buffer (self ?w2) = sp_buffer (self w)" "sp_len (self ?w2) = sp_len (self w)"
    "device ?w2 = device w" "out ?w2 = out w"
    "trace ?w2 = trace w @ Rd M_param_changed # Lock # es1 @ [Wr M_param_changed]"
    using fr es1(1) by (simp_all add: sp_clear_def)
  have c1: "calls_of es1 = step_calls (sp_configure_steps (self w))"
    using es1(2) by simp
  have pc: "calls_of es2 = []
      \<or> calls_of es2 = [SpGetIQ (sp_handle (self w)) n (sp_purge (self w))]"
    using es2(3) [unfolded s2] by (auto simp: prefix_Cons)
  from es2 [unfolded s2] pc es1(3,4,5) c1 fresh(1,3) s2(5,6) show ?thesis
    by (intro exI [of _ "Lock # es1 @ Wr M_param_changed # es2"])
       (simp add: sp_hook_calls_def; blast)
qed

lemma sp_inv_param_changed [simp]: "sp_inv (a\<lparr>sp_param_changed := x\<rparr>) = sp_inv a"
  by (simp add: sp_inv_def split: option.split)

lemma sp_work_returns:
  "sp_work n w = Returns v w' \<Longrightarrow>
     v = n \<and> sp_len (self w') = n \<and> sp_config (self w') = sp_config (self w)
         \<and> \<not> sp_param_changed (self w')
         \<and> (\<exists>b. sp_buffer (self w') = Some b
           \<and> (sp_inv (self w) \<longrightarrow> int (length b) = n)
           \<and> out w' = (\<lambda>k. if int k < n then b ! k else out w k))"
proof -
  assume a: "sp_work n w = Returns v w'"
  show ?thesis
  proof (cases rule: sp_work_cases [of w n])
    case clean
    with a sp_transfer_returns [of n "emit (Rd M_param_changed) w" v w']
    show ?thesis by (auto cong: if_cong)
  next
    case (fatal w1)
    with a show ?thesis by simp
  next
    case (fresh w1)
    have fr: "self w1 = self w" "out w1 = out w"
      using sp_configure_frame [of "emit (Rd M_param_changed) w"] fresh(2) by simp_all
    with fresh a sp_transfer_returns [of n "sp_clear w1" v w']
    show ?thesis by (auto simp: sp_clear_def sp_config_def cong: if_cong)
  qed
qed


lemma sp_work_fatal:
  "Call c st \<in> set (new_events w (final (sp_work n w))) \<Longrightarrow> st < spNoError \<Longrightarrow>
     aborted (sp_work n w) \<and> out (final (sp_work n w)) = out w"
proof -
  assume c: "Call c st \<in> set (new_events w (final (sp_work n w)))" and f: "st < spNoError"
  from sp_work_events [of n w] obtain es where es:
    "trace (final (sp_work n w)) = trace w @ Rd M_param_changed # es"
    "\<not> aborted (sp_work n w) \<longrightarrow> (\<forall>st \<in> set (statuses_of es). spNoError \<le> st)"
    "aborted (sp_work n w) \<or> thrown (sp_work n w) \<longrightarrow>
       out (final (sp_work n w)) = out w"
    by blast
  from c es(1) have "Call c st \<in> set es" by simp
  then have "st \<in> set (statuses_of es)" by (rule status_of_call)
  with f es(2) have "aborted (sp_work n w)" by force
  with es(3) show ?thesis by simp
qed

lemma sp_work_completes:
  "\<forall>st \<in> set (statuses_of (new_events w (final (sp_work n w)))). spNoError \<le> st \<Longrightarrow> 0 \<le> n \<Longrightarrow>
     \<exists>w'. sp_work n w = Returns n w'"
proof -
  assume a: "\<forall>st \<in> set (statuses_of (new_events w (final (sp_work n w)))). spNoError \<le> st"
    and n: "0 \<le> n"
  from sp_work_events [of n w] obtain es where es:
    "trace (final (sp_work n w)) = trace w @ Rd M_param_changed # es"
    "aborted (sp_work n w) \<longrightarrow> (\<exists>st \<in> set (statuses_of es). st < spNoError)"
    "thrown (sp_work n w) \<longrightarrow> n < 0"
    by blast
  from a es(1) have "\<forall>st \<in> set (statuses_of es). spNoError \<le> st" by simp
  with es(2) have "\<not> aborted (sp_work n w)" by force
  moreover from es(3) n have "\<not> thrown (sp_work n w)" by auto
  ultimately obtain v w' where r: "sp_work n w = Returns v w'"
    using res_cases3 by blast
  with sp_work_returns [OF r] show ?thesis by simp
qed

lemma sp_inv_work:
  "sp_inv (self w) \<Longrightarrow> sp_work n w = Returns v w' \<Longrightarrow> sp_inv (self w')"
  using sp_work_returns [of n w v w'] by (auto simp: sp_inv_def)

lemma sp_check_Returns:
  "sp_ERROR_CHECK st w = Returns u w' \<Longrightarrow>
     self w' = self w \<and> device w' = device w \<and> out w' = out w"
  using check_Returns [OF is_check_sp] by blast

lemma sp_run_Returns:
  "run_calls (\<lambda>_. sp_ERROR_CHECK) steps w = Returns u w' \<Longrightarrow>
     self w' = self w \<and> device w' = device w \<and> out w' = out w"
  using run_calls_Returns [OF is_check_sp] by blast

lemma sp_config_eq:
  "sp_config a = sp_config a' \<longleftrightarrow>
     sp_handle a = sp_handle a' \<and> sp_center a = sp_center a' \<and> sp_reflevel a = sp_reflevel a' \<and> sp_atten a = sp_atten a' \<and> sp_decimation a = sp_decimation a' \<and> sp_bandwidth a = sp_bandwidth a' \<and> sp_swfilter a = sp_swfilter a' \<and> sp_purge a = sp_purge a'"
  by (cases a; cases a') (auto simp: sp_config_def)

lemma sp_new_returns:
  "sp_new reflevel atten center decimation swfilter bandwidth purge dev mem = Returns u w \<Longrightarrow>
     sp_param_changed (self w) \<and> sp_buffer (self w) = None \<and> sp_len (self w) = 0
   \<and> sp_center (self w) = center \<and> sp_reflevel (self w) = reflevel \<and> sp_atten (self w) = atten \<and> sp_decimation (self w) = decimation \<and> sp_bandwidth (self w) = bandwidth \<and> sp_swfilter (self w) = swfilter \<and> sp_purge (self w) = purge
   \<and> sp_handle (self w) = rhandle (dev 0) \<and> device w = dev \<and> out w = mem"
  apply (unfold sp_new_def Let_def)
  apply (drule andthen_Returns, clarify)
  apply (drule andthen_Returns, clarify)
  apply (frule sp_check_Returns)
  apply (frule sp_run_Returns)
  apply (auto simp: next_reply_def)
  done

lemma sp_setter_effects:
  "self (sp_set_center center w) = (self w)\<lparr>sp_center := center, sp_param_changed := True\<rparr>"
  "self (sp_set_reflevel reflevel w) = (self w)\<lparr>sp_reflevel := reflevel, sp_param_changed := True\<rparr>"
  "self (sp_set_atten atten w) = (self w)\<lparr>sp_atten := atten, sp_param_changed := True\<rparr>"
  "self (sp_set_decimation decimation w) = (self w)\<lparr>sp_decimation := decimation, sp_param_changed := True\<rparr>"
  "self (sp_set_bandwidth bandwidth w) = (self w)\<lparr>sp_bandwidth := bandwidth, sp_param_changed := True\<rparr>"
  "self (sp_set_swfilter swfilter w) = (self w)\<lparr>sp_swfilter := swfilter, sp_param_changed := True\<rparr>"
  "self (sp_set_purge purge w) = (self w)\<lparr>sp_purge := purge\<rparr>"
  by (simp_all add: sp_set_center_def sp_set_reflevel_def sp_set_atten_def sp_set_decimation_def sp_set_bandwidth_def sp_set_swfilter_def sp_set_purge_def Let_def)

lemma sp_setter_traces:
  "trace (sp_set_center center w) = trace w @ [Lock, Wr M_center, Wr M_param_changed, Unlock]"
  "trace (sp_set_reflevel reflevel w) = trace w @ [Lock, Wr M_reflevel, Wr M_param_changed, Unlock]"
  "trace (sp_set_atten atten w) = trace w @ [Lock, Wr M_atten, Wr M_param_changed, Unlock]"
  "trace (sp_set_decimation decimation w) = trace w @ [Lock, Wr M_decimation, Wr M_param_changed, Unlock]"
  "trace (sp_set_bandwidth bandwidth w) = trace w @ [Lock, Wr M_bandwidth, Wr M_param_changed, Unlock]"
  "trace (sp_set_swfilter swfilter w) = trace w @ [Lock, Wr M_swfilter, Wr M_param_changed, Unlock]"
  "trace (sp_set_purge purge w) = trace w @ [Lock, Wr M_purge, Unlock]"
  by (simp_all add: sp_set_center_def sp_set_reflevel_def sp_set_atten_def sp_set_decimation_def sp_set_bandwidth_def sp_set_swfilter_def sp_set_purge_def Let_def)

lemma sp_setter_frame:
  "device (sp_set_center center w) = device w" "out (sp_set_center center w) = out w"
  "device (sp_set_reflevel reflevel w) = device w" "out (sp_set_reflevel reflevel w) = out w"
  "device (sp_set_atten atten w) = device w" "out (sp_set_atten atten w) = out w"
  "device (sp_set_decimation decimation w) = device w" "out (sp_set_decimation decimation w) = out w"
  "device (sp_set_bandwidth bandwidth w) = device w" "out (sp_set_bandwidth bandwidth w) = out w"
  "device (sp_set_swfilter swfilter w) = device w" "out (sp_set_swfilter swfilter w) = out w"
  "device (sp_set_purge purge w) = device w" "out (sp_set_purge purge w) = out w"
  by (simp_all add: sp_set_center_def sp_set_reflevel_def sp_set_atten_def sp_set_decimation_def sp_set_bandwidth_def sp_set_swfilter_def sp_set_purge_def Let_def)

lemma sp_fold_setters:
  "sp_center (self (fold sp_call cmds w)) =
       last_or (sp_center (self w)) [x. Sp_set_center x \<leftarrow> cmds]
   \<and> sp_reflevel (self (fold sp_call cmds w)) =
       last_or (sp_reflevel (self w)) [x. Sp_set_reflevel x \<leftarrow> cmds]
   \<and> sp_atten (self (fold sp_call cmds w)) =
       last_or (sp_atten (self w)) [x. Sp_set_atten x \<leftarrow> cmds]
   \<and> sp_decimation (self (fold sp_call cmds w)) =
       last_or (sp_decimation (self w)) [x. Sp_set_decimation x \<leftarrow> cmds]
   \<and> sp_bandwidth (self (fold sp_call cmds w)) =
       last_or (sp_bandwidth (self w)) [x. Sp_set_bandwidth x \<leftarrow> cmds]
   \<and> sp_swfilter (self (fold sp_call cmds w)) =
       last_or (sp_swfilter (self w)) [x. Sp_set_swfilter x \<leftarrow> cmds]
   \<and> sp_purge (self (fold sp_call cmds w)) =
       last_or (sp_purge (self w)) [x. Sp_set_purge x \<leftarrow> cmds]
   \<and> sp_handle (self (fold sp_call cmds w)) = sp_handle (self w)
   \<and> sp_buffer (self (fold sp_call cmds w)) = sp_buffer (self w)
   \<and> sp_len (self (fold sp_call cmds w)) = sp_len (self w)
   \<and> sp_param_changed (self (fold sp_call cmds w)) =
       (sp_param_changed (self w) \<or> (\<exists>c \<in> set cmds. sp_marks c))
   \<and> device (fold sp_call cmds w) = device w
   \<and> out (fold sp_call cmds w) = out w"
proof (induction cmds arbitrary: w)
  case Nil
  show ?case by (simp add: last_or_def)
next
  case (Cons c cs)
  show ?case
    by (cases c) (simp_all add: Cons.IH sp_setter_effects sp_setter_frame last_or_Cons)
qed

section \<open>Facts about the VSG generator\<close>

lemma vsg_configure_frame:
  "self (final (vsg_configure ok w)) = self w \<and> out (final (vsg_configure ok w)) = out w
    \<and> device (final (vsg_configure ok w)) = device w"
  using run_calls_frame [OF is_check_vsg, of ok "vsg_configure_steps (self w)" "emit Lock w"]
  by (cases "run_calls (vsg_ERROR_CHECK ok) (vsg_configure_steps (self w)) (emit Lock w)")
     (simp_all add: vsg_configure_def Let_def)

lemma vsg_configure_not_thrown: "vsg_configure ok w \<noteq> Thrown w'"
  using run_calls_not_thrown [OF is_check_vsg, of ok "vsg_configure_steps (self w)" "emit Lock w"]
  by (cases "run_calls (vsg_ERROR_CHECK ok) (vsg_configure_steps (self w)) (emit Lock w)")
     (simp_all add: vsg_configure_def Let_def)

lemma vsg_configure_events:
  "\<exists>es. trace (final (vsg_configure ok w)) = trace w @ Lock # es
      \<and> prefix (calls_of es) (step_calls (vsg_configure_steps (self w)))
      \<and> calls_of es \<noteq> []
      \<and> allocs_of es = []
      \<and> (aborted (vsg_configure ok w) \<longrightarrow> (\<exists>st \<in> set (statuses_of es). st < ok))
      \<and> (\<not> aborted (vsg_configure ok w) \<longrightarrow>
            calls_of es = step_calls (vsg_configure_steps (self w))
          \<and> (\<forall>st \<in> set (statuses_of es). ok \<le> st))"
proof -
  let ?r = "run_calls (vsg_ERROR_CHECK ok) (vsg_configure_steps (self w)) (emit Lock w)"
  from run_calls_events [OF is_check_vsg, of ok "vsg_configure_steps (self w)" "emit Lock w"]
  obtain es where es: "trace (final ?r) = trace (emit Lock w) @ es"
    "prefix (calls_of es) (step_calls (vsg_configure_steps (self w)))"
    "vsg_configure_steps (self w) \<noteq> [] \<longrightarrow> calls_of es \<noteq> []"
    "allocs_of es = []"
    "aborted ?r \<longrightarrow> (\<exists>st \<in> set (statuses_of es). st < ok)"
    "\<not> aborted ?r \<longrightarrow> calls_of es = step_calls (vsg_configure_steps (self w))
          \<and> (\<forall>st \<in> set (statuses_of es). ok \<le> st)"
    by blast
  have ne: "vsg_configure_steps (self w) \<noteq> []" by (simp add: vsg_configure_steps_def)
  show ?thesis
  proof (cases ?r)
    case (Returns u w1)
    with es ne show ?thesis
      by (intro exI [of _ "es @ [Stdout ''Frequency: '', Stdout ''SampleRate: '', Stdout ''Level: '',
                 Stdout ''I Offset: '', Stdout ''Q Offset: '', Unlock]"])
         (simp add: vsg_configure_def Let_def)
  next
    case (Aborted w1)
    with es ne show ?thesis
      by (intro exI [of _ es]) (simp add: vsg_configure_def Let_def)
  next
    case (Thrown w1)
    with run_calls_not_thrown [OF is_check_vsg] show ?thesis by blast
  qed
qed

lemma vsg_transfer_eq:
  "vsg_transfer n inp w =
     Returns n (vendor (VsgFlush (vsg_handle (self w)))
                  (vendor (VsgSubmitIQ (vsg_handle (self w)) inp n) w))"
  by (simp add: vsg_transfer_def Let_def)

lemma vsg_work_cases:
  obtains (clean) "\<not> vsg_param_changed (self w)"
      "vsg_work ok n inp w = vsg_transfer n inp (emit (Rd M_param_changed) w)"
  | (fatal) w1 where "vsg_param_changed (self w)"
      "vsg_configure ok (emit (Rd M_param_changed) w) = Aborted w1"
      "vsg_work ok n inp w = Aborted w1"
  | (fresh) w1 where "vsg_param_changed (self w)"
      "vsg_configure ok (emit (Rd M_param_changed) w) = Returns () w1"
      "vsg_work ok n inp w = vsg_transfer n inp (vsg_clear w1)"
proof (cases "vsg_param_changed (self w)")
  case False
  then show thesis using clean by (simp add: vsg_work_def Let_def)
next
  case True
  show thesis
  proof (cases "vsg_configure ok (emit (Rd M_param_changed) w)")
    case (Returns u w1)
    with True show thesis using fresh [of w1] by (simp add: vsg_work_def Let_def)
  next
    case (Aborted w1)
    with True show thesis using fatal [of w1] by (simp add: vsg_work_def Let_def)
  next
    case (Thrown w1)
    with vsg_configure_not_thrown show thesis by blast
  qed
qed

lemma vsg_work_events:
  "\<exists>es. trace (final (vsg_work ok n inp w)) = trace w @ Rd M_param_changed # es
      \<and> device (final (vsg_work ok n inp w)) = device w
      \<and> out (final (vsg_work ok n inp w)) = out w
      \<and> prefix (calls_of es) (vsg_hook_calls n inp (self w))
      \<and> (vsg_param_changed (self w) \<longrightarrow> calls_of es \<noteq> [])
      \<and> (\<not> vsg_param_changed (self w) \<longrightarrow> Lock \<notin> set es)
      \<and> allocs_of es = []
      \<and> \<not> thrown (vsg_work ok n inp w)
      \<and> (aborted (vsg_work ok n inp w) \<longrightarrow>
            vsg_param_changed (self w) \<and> (\<exists>st \<in> set (statuses_of es). st < ok))
      \<and> (\<not> aborted (vsg_work ok n inp w) \<longrightarrow> calls_of es = vsg_hook_calls n inp (self w))"
proof (cases rule: vsg_work_cases [of w ok n inp])
  case clean
  then show ?thesis
    by (intro exI [of _ "[Call (VsgSubmitIQ (vsg_handle (self w)) inp n)
                            (rstatus (device w (ncalls w))),
                          Call (VsgFlush (vsg_handle (self w)))
                            (rstatus (device w (Suc (ncalls w))))]"])
       (simp add: vsg_transfer_eq vsg_hook_calls_def)
next
  case (fatal w1)
  let ?w0 = "emit (Rd M_param_changed) w"
  from vsg_configure_events [of ok ?w0] fatal(2) obtain es where
    "trace w1 = trace ?w0 @ Lock # es"
    "prefix (calls_of es) (step_calls (vsg_configure_steps (self ?w0)))"
    "calls_of es \<noteq> []" "allocs_of es = []"
    "\<exists>st \<in> set (statuses_of es). st < ok"
    by auto
  moreover have "device w1 = device w" "out w1 = out w"
    using vsg_configure_frame [of ok ?w0] fatal(2) by simp_all
  ultimately show ?thesis using fatal
    by (intro exI [of _ "Lock # es"]) (simp add: vsg_hook_calls_def)
next
  case (fresh w1)
  let ?w0 = "emit (Rd M_param_changed) w"
  from vsg_configure_events [of ok ?w0] fresh(2) obtain es1 where es1:
    "trace w1 = trace ?w0 @ Lock # es1"
    "calls_of es1 = step_calls (vsg_configure_steps (self ?w0))"
    "calls_of es1 \<noteq> []"
    "allocs_of es1 = []"
    by auto
  have fr: "self w1 = self w" "device w1 = device w" "out w1 = out w"
    using vsg_configure_frame [of ok ?w0] fresh(2) by simp_all
  from es1 fr fresh(1,3) show ?thesis
    by (intro exI [of _ "Lock # es1 @ [Wr M_param_changed,
                          Call (VsgSubmitIQ (vsg_handle (self w)) inp n)
                            (rstatus (device w (ncalls w1))),
                          Call (VsgFlush (vsg_handle (self w)))
                            (rstatus (device w (Suc (ncalls w1))))]"])
       (simp add: vsg_transfer_eq vsg_hook_calls_def vsg_clear_def)
qed

lemma vsg_work_returns:
  "vsg_work ok n inp w = Returns v w' \<Longrightarrow>
     v = n \<and> self w' = (self w)\<lparr>vsg_param_changed := False\<rparr> \<and> out w' = out w"
proof -
  assume a: "vsg_work ok n inp w = Returns v w'"
  show ?thesis
  proof (cases rule: vsg_work_cases [of w ok n inp])
    case clean
    with a show ?thesis by (cases "self w") (auto simp: vsg_transfer_eq)
  next
    case (fatal w1)
    with a show ?thesis by simp
  next
    case (fresh w1)
    have fr: "self w1 = self w" "out w1 = out w"
      using vsg_configure_frame [of ok "emit (Rd M_param_changed) w"] fresh(2) by simp_all
    with fresh a show ?thesis by (auto simp: vsg_clear_def vsg_transfer_eq)
  qed
qed

lemma vsg_check_Returns:
  "vsg_ERROR_CHECK ok nm st w = Returns u w' \<Longrightarrow>
     self w' = self w \<and> device w' = device w \<and> out w' = out w"
  using check_Returns [OF is_check_vsg] by blast

lemma vsg_run_Returns:
  "run_calls (vsg_ERROR_CHECK ok) steps w = Returns u w' \<Longrightarrow>
     self w' = self w \<and> device w' = device w \<and> out w' = out w"
  using run_calls_Returns [OF is_check_vsg] by blast

lemma vsg_new_returns:
  "vsg_new ok center samplerate level ioffset qoffset dev mem = Returns u w \<Longrightarrow>
     vsg_param_changed (self w) \<and> vsg_buffer (self w) = None \<and> vsg_len (self w) = 0
   \<and> vsg_center (self w) = center \<and> vsg_level (self w) = level \<and> vsg_samplerate (self w) = samplerate \<and> vsg_ioffset (self w) = ioffset \<and> vsg_qoffset (self w) = qoffset
   \<and> vsg_handle (self w) = rhandle (dev 0) \<and> device w = dev \<and> out w = mem"
  apply (unfold vsg_new_def Let_def)
  apply (drule andthen_Returns, clarify)
  apply (drule andthen_Returns, clarify)
  apply (frule vsg_check_Returns)
  apply (frule vsg_run_Returns)
  apply (auto simp: next_reply_def)
  done

lemma vsg_setter_effects:
  "self (vsg_set_center center w) = (self w)\<lparr>vsg_center := center, vsg_param_changed := True\<rparr>"
  "self (vsg_set_level level w) = (self w)\<lparr>vsg_level := level, vsg_param_changed := True\<rparr>"
  "self (vsg_set_samplerate samplerate w) = (self w)\<lparr>vsg_samplerate := samplerate, vsg_param_changed := True\<rparr>"
  "self (vsg_set_ioffset ioffset w) = (self w)\<lparr>vsg_ioffset := ioffset, vsg_param_changed := True\<rparr>"
  "self (vsg_set_qoffset qoffset w) = (self w)\<lparr>vsg_qoffset := qoffset, vsg_param_changed := True\<rparr>"
  by (simp_all add: vsg_set_center_def vsg_set_level_def vsg_set_samplerate_def vsg_set_ioffset_def vsg_set_qoffset_def Let_def)

lemma vsg_setter_traces:
  "trace (vsg_set_center center w) = trace w @ [Lock, Wr M_center, Wr M_param_changed, Unlock]"
  "trace (vsg_set_level level w) = trace w @ [Lock, Wr M_level, Wr M_param_changed, Unlock]"
  "trace (vsg_set_samplerate samplerate w) = trace w @ [Lock, Wr M_samplerate, Wr M_param_changed, Unlock]"
  "trace (vsg_set_ioffset ioffset w) = trace w @ [Lock, Wr M_ioffset, Wr M_param_changed, Unlock]"
  "trace (vsg_set_qoffset qoffset w) = trace w @ [Lock, Wr M_qoffset, Wr M_param_changed, Unlock]"
  by (simp_all add: vsg_set_center_def vsg_set_level_def vsg_set_samplerate_def vsg_set_ioffset_def vsg_set_qoffset_def Let_def)

lemma vsg_setter_frame:
  "device (vsg_set_center center w) = device w" "out (vsg_set_center center w) = out w"
  "device (vsg_set_level level w) = device w" "out (vsg_set_level level w) = out w"
  "device (vsg_set_samplerate samplerate w) = device w" "out (vsg_set_samplerate samplerate w) = out w"
  "device (vsg_set_ioffset ioffset w) = device w" "out (vsg_set_ioffset ioffset w) = out w"
  "device (vsg_set_qoffset qoffset w) = device w" "out (vsg_set_qoffset qoffset w) = out w"
  by (simp_all add: vsg_set_center_def vsg_set_level_def vsg_set_samplerate_def vsg_set_ioffset_def vsg_set_qoffset_def Let_def)

lemma vsg_fold_setters:
  "vsg_center (self (fold vsg_call cmds w)) =
       last_or (vsg_center (self w)) [x. Vsg_set_center x \<leftarrow> cmds]
   \<and> vsg_level (self (fold vsg_call cmds w)) =
       last_or (vsg_level (self w)) [x. Vsg_set_level x \<leftarrow> cmds]
   \<and> vsg_samplerate (self (fold vsg_call cmds w)) =
       last_or (vsg_samplerate (self w)) [x. Vsg_set_samplerate x \<leftarrow> cmds]
   \<and> vsg_ioffset (self (fold vsg_call cmds w)) =
       last_or (vsg_ioffset (self w)) [x. Vsg_set_ioffset x \<leftarrow> cmds]
   \<and> vsg_qoffset (self (fold vsg_call cmds w)) =
       last_or (vsg_qoffset (self w)) [x. Vsg_set_qoffset x \<leftarrow> cmds]
   \<and> vsg_handle (self (fold vsg_call cmds w)) = vsg_handle (self w)
   \<and> vsg_buffer (self (fold vsg_call cmds w)) = vsg_buffer (self w)
   \<and> vsg_len (self (fold vsg_call cmds w)) = vsg_len (self w)
   \<and> vsg_param_changed (self (fold vsg_call cmds w)) =
       (vsg_param_changed (self w) \<or> cmds \<noteq> [])
   \<and> device (fold vsg_call cmds w) = device w
   \<and> out (fold vsg_call cmds w) = out w"
proof (induction cmds arbitrary: w)
  case Nil
  show ?case by (simp add: last_or_def)
next
  case (Cons c cs)
  show ?case
    by (cases c) (simp_all add: Cons.IH vsg_setter_effects vsg_setter_frame last_or_Cons)
qed

section \<open>Evaluation on the example worlds and further facts\<close>

lemmas eval_world = steady_device_def failing_device_def next_reply_def Let_def new_events_def

lemmas bb_eval = bb_example_def bb_idle_def bb_work_def bb_configure_def bb_configure_steps_def
  bb_ERROR_CHECK_def bb_clear_def bb_transfer_def bb_allocate_def bb_get_iq_def bb_move_def

lemmas sm_eval = sm_example_def sm_idle_def sm_work_def sm_configure_def sm_configure_steps_def
  sm_ERROR_CHECK_def sm_clear_def sm_transfer_def sm_allocate_def sm_get_iq_def sm_move_def

lemmas sp_eval = sp_example_def sp_idle_def sp_work_def sp_configure_def sp_configure_steps_def
  sp_ERROR_CHECK_def sp_clear_def sp_transfer_def sp_allocate_def sp_get_iq_def sp_move_def
  spNoError_def

lemmas vsg_eval = vsg_example_def vsg_idle_failing_def vsg_work_def vsg_configure_def
  vsg_configure_steps_def vsg_ERROR_CHECK_def vsg_clear_def vsg_transfer_def int16_t_def

lemma hd_prefix: "prefix xs (y # ys) \<Longrightarrow> xs \<noteq> [] \<Longrightarrow> hd xs = y"
  by (cases xs) auto

lemma bb_first_hook:
  assumes "bb_param_changed (self w)"
  shows "calls_of (new_events w (final (bb_work ok n w))) \<noteq> []
       \<and> prefix (calls_of (new_events w (final (bb_work ok n w))))
            (step_calls (bb_configure_steps (self w))
               @ [BbGetIQUnpacked (bb_handle (self w)) n (bb_purge (self w))])
       \<and> (\<exists>es. new_events w (final (bb_work ok n w)) = Rd M_param_changed # Lock # es)"
proof -
  from bb_work_events [of ok n w] obtain es where es:
    "trace (final (bb_work ok n w)) = trace w @ Rd M_param_changed # es"
    "prefix (calls_of es) (bb_hook_calls n (self w))"
    "bb_param_changed (self w) \<longrightarrow> calls_of es \<noteq> []"
    by blast
  have lk: "\<exists>es'. es = Lock # es'"
  proof (cases rule: bb_work_cases [of w ok n])
    case clean
    with assms show ?thesis by simp
  next
    case (fatal w1)
    from bb_configure_events [of ok "emit (Rd M_param_changed) w"] fatal(2) obtain es1 where
      "trace w1 = trace (emit (Rd M_param_changed) w) @ Lock # es1" by auto
    with fatal(3) es(1) show ?thesis by auto
  next
    case (fresh w1)
    from bb_configure_events [of ok "emit (Rd M_param_changed) w"] fresh(2) obtain es1 where
      e1: "trace w1 = trace (emit (Rd M_param_changed) w) @ Lock # es1" by auto
    from bb_transfer_events [of ok n "bb_clear w1"] obtain es2 where
      "trace (final (bb_transfer ok n (bb_clear w1))) = trace (bb_clear w1) @ es2" by blast
    with e1 fresh(3) es(1) show ?thesis by (auto simp: bb_clear_def)
  qed
  from es assms lk show ?thesis by (auto simp: bb_hook_calls_def)
qed

lemma sm_first_hook:
  assumes "sm_param_changed (self w)"
  shows "calls_of (new_events w (final (sm_work ok n w))) \<noteq> []
       \<and> prefix (calls_of (new_events w (final (sm_work ok n w))))
            (step_calls (sm_configure_steps (self w))
               @ [SmGetIQ (sm_handle (self w)) n (sm_purge (self w))])
       \<and> (\<exists>es. new_events w (final (sm_work ok n w)) = Rd M_param_changed # Lock # es)"
proof -
  from sm_work_events [of ok n w] obtain es where es:
    "trace (final (sm_work ok n w)) = trace w @ Rd M_param_changed # es"
    "prefix (calls_of es) (sm_hook_calls n (self w))"
    "sm_param_changed (self w) \<longrightarrow> calls_of es \<noteq> []"
    by blast
  have lk: "\<exists>es'. es = Lock # es'"
  proof (cases rule: sm_work_cases [of w ok n])
    case clean
    with assms show ?thesis by simp
  next
    case (fatal w1)
    from sm_configure_events [of ok "emit (Rd M_param_changed) w"] fatal(2) obtain es1 where
      "trace w1 = trace (emit (Rd M_param_changed) w) @ Lock # es1" by auto
    with fatal(3) es(1) show ?thesis by auto
  next
    case (fresh w1)
    from sm_configure_events [of ok "emit (Rd M_param_changed) w"] fresh(2) obtain es1 where
      e1: "trace w1 = trace (emit (Rd M_param_changed) w) @ Lock # es1" by auto
    from sm_transfer_events [of ok n "sm_clear w1"] obtain es2 where
      "trace (final (sm_transfer ok n (sm_clear w1))) = trace (sm_clear w1) @ es2" by blast
    with e1 fresh(3) es(1) show ?thesis by (auto simp: sm_clear_def)
  qed
  from es assms lk show ?thesis by (auto simp: sm_hook_calls_def)
qed

lemma sp_first_hook:
  assumes "sp_param_changed (self w)"
  shows "calls_of (new_events w (final (sp_work n w))) \<noteq> []
       \<and> prefix (calls_of (new_events w (final (sp_work n w))))
            (step_calls (sp_configure_steps (self w))
               @ [SpGetIQ (sp_handle (self w)) n (sp_purge (self w))])
       \<and> (\<exists>es. new_events w (final (sp_work n w)) = Rd M_param_changed # Lock # es)"
proof -
  from sp_work_events [of n w] obtain es where es:
    "trace (final (sp_work n w)) = trace w @ Rd M_param_changed # es"
    "prefix (calls_of es) (sp_hook_calls n (self w))"
    "sp_param_changed (self w) \<longrightarrow> calls_of es \<noteq> []"
    by blast
  have lk: "\<exists>es'. es = Lock # es'"
  proof (cases rule: sp_work_cases [of w n])
    case clean
    with assms show ?thesis by simp
  next
    case (fatal w1)
    from sp_configure_events [of "emit (Rd M_param_changed) w"] fatal(2) obtain es1 where
      "trace w1 = trace (emit (Rd M_param_changed) w) @ Lock # es1" by auto
    with fatal(3) es(1) show ?thesis by auto
  next
    case (fresh w1)
    from sp_configure_events [of "emit (Rd M_param_changed) w"] fresh(2) obtain es1 where
      e1: "trace w1 = trace (emit (Rd M_param_changed) w) @ Lock # es1" by auto
    from sp_transfer_events [of n "sp_clear w1"] obtain es2 where
      "trace (final (sp_transfer n (sp_clear w1))) = trace (sp_clear w1) @ es2" by blast
    with e1 fresh(3) es(1) show ?thesis by (auto simp: sp_clear_def)
  qed
  from es assms lk show ?thesis by (auto simp: sp_hook_calls_def)
qed

lemma vsg_first_hook:
  assumes "vsg_param_changed (self w)"
  shows "calls_of (new_events w (final (vsg_work ok n inp w))) \<noteq> []
       \<and> prefix (calls_of (new_events w (final (vsg_work ok n inp w))))
            (step_calls (vsg_configure_steps (self w))
               @ [VsgSubmitIQ (vsg_handle (self w)) inp n, VsgFlush (vsg_handle (self w))])
       \<and> (\<exists>es. new_events w (final (vsg_work ok n inp w)) = Rd M_param_changed # Lock # es)"
proof -
  from vsg_work_events [of ok n inp w] obtain es where es:
    "trace (final (vsg_work ok n inp w)) = trace w @ Rd M_param_changed # es"
    "prefix (calls_of es) (vsg_hook_calls n inp (self w))"
    "vsg_param_changed (self w) \<longrightarrow> calls_of es \<noteq> []"
    by blast
  have lk: "\<exists>es'. es = Lock # es'"
  proof (cases rule: vsg_work_cases [of w ok n inp])
    case clean
    with assms show ?thesis by simp
  next
    case (fatal w1)
    from vsg_configure_events [of ok "emit (Rd M_param_changed) w"] fatal(2) obtain es1 where
      "trace w1 = trace (emit (Rd M_param_changed) w) @ Lock # es1" by auto
    with fatal(3) es(1) show ?thesis by auto
  next
    case (fresh w1)
    from vsg_configure_events [of ok "emit (Rd M_param_changed) w"] fresh(2) obtain es1 where
      e1: "trace w1 = trace (emit (Rd M_param_changed) w) @ Lock # es1" by auto
    with fresh(3) es(1) show ?thesis by (auto simp: vsg_clear_def vsg_transfer_eq)
  qed
  from es assms lk show ?thesis by (auto simp: vsg_hook_calls_def)
qed

section \<open>The claims\<close>

text \<open>
  Claim C3.  For every status handed to \<^verbatim>\<open>ERROR_CHECK\<close>, in each of the four
  implementation files: a status equal to the success value prints nothing and
  execution continues in the unchanged world; a status greater than the success value
  prints one warning line and execution continues; a status less than the success
  value prints one error line and the process is terminated by \<^verbatim>\<open>abort()\<close>.  The
  process is terminated if and only if the status is less than the success value.
\<close>

theorem ERROR_CHECK_two_tier:
  "bb_ERROR_CHECK ok st w =
     (if st = ok then Returns () w
      else if ok < st then Returns () (emit (Diag ''** Warning: '' st) w)
      else Aborted (emit (Diag ''** Error: '' st) w))
   \<and> sm_ERROR_CHECK ok call st w =
     (if st = ok then Returns () w
      else if ok < st then Returns () (emit (Diag (''** Warning: ('' @ call @ '')'') st) w)
      else Aborted (emit (Diag (''** Error: ('' @ call @ '')'') st) w))
   \<and> sp_ERROR_CHECK st w =
     (if st = spNoError then Returns () w
      else if spNoError < st then Returns () (emit (Diag ''** Warning: '' st) w)
      else Aborted (emit (Diag ''** Error: '' st) w))
   \<and> vsg_ERROR_CHECK ok call st w =
     (if st = ok then Returns () w
      else if ok < st then Returns () (emit (Diag (''** VSG Warning: ('' @ call @ '')'') st) w)
      else Aborted (emit (Diag (''** VSG Error: ('' @ call @ '')'') st) w))
   \<and> aborted (bb_ERROR_CHECK ok st w) = (st < ok)
   \<and> aborted (sm_ERROR_CHECK ok call st w) = (st < ok)
   \<and> aborted (sp_ERROR_CHECK st w) = (st < spNoError)
   \<and> aborted (vsg_ERROR_CHECK ok call st w) = (st < ok)"
  by (simp add: bb_ERROR_CHECK_def sm_ERROR_CHECK_def sp_ERROR_CHECK_def vsg_ERROR_CHECK_def
        Let_def)


text \<open>
  Claim C1.  As stated (every setter sets the dirty marker) the claim fails for
  \<^verbatim>\<open>set_purge\<close> of the three receivers: called on an object whose marker is clear, it
  leaves the marker clear.
\<close>

theorem set_purge_leaves_marker_clear:
  "\<not> bb_param_changed (self bb_idle) \<and> \<not> bb_param_changed (self (bb_set_purge True bb_idle))
   \<and> \<not> sm_param_changed (self sm_idle) \<and> \<not> sm_param_changed (self (sm_set_purge True sm_idle))
   \<and> \<not> sp_param_changed (self sp_idle) \<and> \<not> sp_param_changed (self (sp_set_purge True sp_idle))"
  by (simp add: bb_setter_effects sm_setter_effects sp_setter_effects
        bb_idle_def sm_idle_def sp_idle_def)

text \<open>
  Claim C1, amended.  Every setter of every adapter takes the mutex, writes its own
  member, and releases the mutex; every setter other than \<^verbatim>\<open>set_purge\<close> also sets the
  dirty marker to true before releasing the mutex.  \<^verbatim>\<open>set_purge\<close> of the three receivers
  writes \<^verbatim>\<open>_purge\<close> under the mutex and leaves the dirty marker as it was.  All writes
  happen while the mutex is held.
\<close>

theorem setters_write_under_mutex:
  "self (bb_set_center bb_center_v wbb) = (self wbb)\<lparr>bb_center := bb_center_v, bb_param_changed := True\<rparr>
   \<and> new_events wbb (bb_set_center bb_center_v wbb) = [Lock, Wr M_center, Wr M_param_changed, Unlock]
   \<and> guarded False (new_events wbb (bb_set_center bb_center_v wbb))
   \<and> self (bb_set_reflevel bb_reflevel_v wbb) = (self wbb)\<lparr>bb_reflevel := bb_reflevel_v, bb_param_changed := True\<rparr>
   \<and> new_events wbb (bb_set_reflevel bb_reflevel_v wbb) = [Lock, Wr M_reflevel, Wr M_param_changed, Unlock]
   \<and> guarded False (new_events wbb (bb_set_reflevel bb_reflevel_v wbb))
   \<and> self (bb_set_decimation bb_decimation_v wbb) = (self wbb)\<lparr>bb_decimation := bb_decimation_v, bb_param_changed := True\<rparr>
   \<and> new_events wbb (bb_set_decimation bb_decimation_v wbb) = [Lock, Wr M_decimation, Wr M_param_changed, Unlock]
   \<and> guarded False (new_events wbb (bb_set_decimation bb_decimation_v wbb))
   \<and> self (bb_set_bandwidth bb_bandwidth_v wbb) = (self wbb)\<lparr>bb_bandwidth := bb_bandwidth_v, bb_param_changed := True\<rparr>
   \<and> new_events wbb (bb_set_bandwidth bb_bandwidth_v wbb) = [Lock, Wr M_bandwidth, Wr M_param_changed, Unlock]
   \<and> guarded False (new_events wbb (bb_set_bandwidth bb_bandwidth_v wbb))
   \<and> self (bb_set_purge bb_purge_v wbb) = (self wbb)\<lparr>bb_purge := bb_purge_v\<rparr>
   \<and> new_events wbb (bb_set_purge bb_purge_v wbb) = [Lock, Wr M_purge, Unlock]
   \<and> guarded False (new_events wbb (bb_set_purge bb_purge_v wbb))
   \<and> self (sm_set_center sm_center_v wsm) = (self wsm)\<lparr>sm_center := sm_center_v, sm_param_changed := True\<rparr>
   \<and> new_events wsm (sm_set_center sm_center_v wsm) = [Lock, Wr M_center, Wr M_param_changed, Unlock]
   \<and> guarded False (new_events wsm (sm_set_center sm_center_v wsm))
   \<and> self (sm_set_reflevel sm_reflevel_v wsm) = (self wsm)\<lparr>sm_reflevel := sm_reflevel_v, sm_param_changed := True\<rparr>
   \<and> new_events wsm (sm_set_reflevel sm_reflevel_v wsm) = [Lock, Wr M_reflevel, Wr M_param_changed, Unlock]
   \<and> guarded False (new_events wsm (sm_set_reflevel sm_reflevel_v wsm))
   \<and> self (sm_set_atten sm_atten_v wsm) = (self wsm)\<lparr>sm_atten := sm_atten_v, sm_param_changed := True\<rparr>
   \<and> new_events wsm (sm_set_atten sm_atten_v wsm) = [Lock, Wr M_atten, Wr M_param_changed, Unlock]
   \<and> guarded False (new_events wsm (sm_set_atten sm_atten_v wsm))
   \<and> self (sm_set_decimation sm_decimation_v wsm) = (self wsm)\<lparr>sm_decimation := sm_decimation_v, sm_param_changed := True\<rparr>
   \<and> new_events wsm (sm_set_decimation sm_decimation_v wsm) = [Lock, Wr M_decimation, Wr M_param_changed, Unlock]
   \<and> guarded False (new_events wsm (sm_set_decimation sm_decimation_v wsm))
   \<and> self (sm_set_bandwidth sm_bandwidth_v wsm) = (self wsm)\<lparr>sm_bandwidth := sm_bandwidth_v, sm_param_changed := True\<rparr>
   \<and> new_events wsm (sm_set_bandwidth sm_bandwidth_v wsm) = [Lock, Wr M_bandwidth, Wr M_param_changed, Unlock]
   \<and> guarded False (new_events wsm (sm_set_bandwidth sm_bandwidth_v wsm))
   \<and> self (sm_set_swfilter sm_swfilter_v wsm) = (self wsm)\<lparr>sm_swfilter := sm_swfilter_v, sm_param_changed := True\<rparr>
   \<and> new_events wsm (sm_set_swfilter sm_swfilter_v wsm) = [Lock, Wr M_swfilter, Wr M_param_changed, Unlock]
   \<and> guarded False (new_events wsm (sm_set_swfilter sm_swfilter_v wsm))
   \<and> self (sm_set_purge sm_purge_v wsm) = (self wsm)\<lparr>sm_purge := sm_purge_v\<rparr>
   \<and> new_events wsm (sm_set_purge sm_purge_v wsm) = [Lock, Wr M_purge, Unlock]
   \<and> guarded False (new_events wsm (sm_set_purge sm_purge_v wsm))
   \<and> self (sp_set_center sp_center_v wsp) = (self wsp)\<lparr>sp_center := sp_center_v, sp_param_changed := True\<rparr>
   \<and> new_events wsp (sp_set_center sp_center_v wsp) = [Lock, Wr M_center, Wr M_param_changed, Unlock]
   \<and> guarded False (new_events wsp (sp_set_center sp_center_v wsp))
   \<and> self (sp_set_reflevel sp_reflevel_v wsp) = (self wsp)\<lparr>sp_reflevel := sp_reflevel_v, sp_param_changed := True\<rparr>
   \<and> new_events wsp (sp_set_reflevel sp_reflevel_v wsp) = [Lock, Wr M_reflevel, Wr M_param_changed, Unlock]
   \<and> guarded False (new_events wsp (sp_set_reflevel sp_reflevel_v wsp))
   \<and> self (sp_set_atten sp_atten_v wsp) = (self wsp)\<lparr>sp_atten := sp_atten_v, sp_param_changed := True\<rparr>
   \<and> new_events wsp (sp_set_atten sp_atten_v wsp) = [Lock, Wr M_atten, Wr M_param_changed, Unlock]
   \<and> guarded False (new_events wsp (sp_set_atten sp_atten_v wsp))
   \<and> self (sp_set_decimation sp_decimation_v wsp) = (self wsp)\<lparr>sp_decimation := sp_decimation_v, sp_param_changed := True\<rparr>
   \<and> new_events wsp (sp_set_decimation sp_decimation_v wsp) = [Lock, Wr M_decimation, Wr M_param_changed, Unlock]
   \<and> guarded False (new_events wsp (sp_set_decimation sp_decimation_v wsp))
   \<and> self (sp_set_bandwidth sp_bandwidth_v wsp) = (self wsp)\<lparr>sp_bandwidth := sp_bandwidth_v, sp_param_changed := True\<rparr>
   \<and> new_events wsp (sp_set_bandwidth sp_bandwidth_v wsp) = [Lock, Wr M_bandwidth, Wr M_param_changed, Unlock]
   \<and> guarded False (new_events wsp (sp_set_bandwidth sp_bandwidth_v wsp))
   \<and> self (sp_set_swfilter sp_swfilter_v wsp) = (self wsp)\<lparr>sp_swfilter := sp_swfilter_v, sp_param_changed := True\<rparr>
   \<and> new_events wsp (sp_set_swfilter sp_swfilter_v wsp) = [Lock, Wr M_swfilter, Wr M_param_changed, Unlock]
   \<and> guarded False (new_events wsp (sp_set_swfilter sp_swfilter_v wsp))
   \<and> self (sp_set_purge sp_purge_v wsp) = (self wsp)\<lparr>sp_purge := sp_purge_v\<rparr>
   \<and> new_events wsp (sp_set_purge sp_purge_v wsp) = [Lock, Wr M_purge, Unlock]
   \<and> guarded False (new_events wsp (sp_set_purge sp_purge_v wsp))
   \<and> self (vsg_set_center vsg_center_v wvsg) = (self wvsg)\<lparr>vsg_center := vsg_center_v, vsg_param_changed := True\<rparr>
   \<and> new_events wvsg (vsg_set_center vsg_center_v wvsg) = [Lock, Wr M_center, Wr M_param_changed, Unlock]
   \<and> guarded False (new_events wvsg (vsg_set_center vsg_center_v wvsg))
   \<and> self (vsg_set_level vsg_level_v wvsg) = (self wvsg)\<lparr>vsg_level := vsg_level_v, vsg_param_changed := True\<rparr>
   \<and> new_events wvsg (vsg_set_level vsg_level_v wvsg) = [Lock, Wr M_level, Wr M_param_changed, Unlock]
   \<and> guarded False (new_events wvsg (vsg_set_level vsg_level_v wvsg))
   \<and> self (vsg_set_samplerate vsg_samplerate_v wvsg) = (self wvsg)\<lparr>vsg_samplerate := vsg_samplerate_v, vsg_param_changed := True\<rparr>
   \<and> new_events wvsg (vsg_set_samplerate vsg_samplerate_v wvsg) = [Lock, Wr M_samplerate, Wr M_param_changed, Unlock]
   \<and> guarded False (new_events wvsg (vsg_set_samplerate vsg_samplerate_v wvsg))
   \<and> self (vsg_set_ioffset vsg_ioffset_v wvsg) = (self wvsg)\<lparr>vsg_ioffset := vsg_ioffset_v, vsg_param_changed := True\<rparr>
   \<and> new_events wvsg (vsg_set_ioffset vsg_ioffset_v wvsg) = [Lock, Wr M_ioffset, Wr M_param_changed, Unlock]
   \<and> guarded False (new_events wvsg (vsg_set_ioffset vsg_ioffset_v wvsg))
   \<and> self (vsg_set_qoffset vsg_qoffset_v wvsg) = (self wvsg)\<lparr>vsg_qoffset := vsg_qoffset_v, vsg_param_changed := True\<rparr>
   \<and> new_events wvsg (vsg_set_qoffset vsg_qoffset_v wvsg) = [Lock, Wr M_qoffset, Wr M_param_changed, Unlock]
   \<and> guarded False (new_events wvsg (vsg_set_qoffset vsg_qoffset_v wvsg))"
  by (intro conjI) (simp_all add: bb_setter_effects bb_setter_traces sm_setter_effects sm_setter_traces sp_setter_effects sp_setter_traces vsg_setter_effects vsg_setter_traces new_events_def)


text \<open>
  Claim C2.  The generator's transfer hook does not check the statuses of the submit
  and flush calls.  On an object whose dirty marker is clear and a device that answers
  every call with the fatal status \<open>- 1\<close> (success value 0), the hook makes both calls,
  prints nothing, and returns the item count; the BB receiver's hook on such a device
  is terminated by its transfer call.
\<close>

theorem vsg_work_ignores_transfer_status:
  "(\<exists>w'. vsg_work 0 2 [(5, 6), (7, 8)] vsg_idle_failing = Returns 2 w'
       \<and> new_events vsg_idle_failing w' =
           [Rd M_param_changed,
            Call (VsgSubmitIQ 7 [(5, 6), (7, 8)] 2) (- 1),
            Call (VsgFlush 7) (- 1)])
   \<and> aborted (bb_work 0 2 (bb_idle\<lparr>device := failing_device\<rparr>))"
  by (simp add: eval_world vsg_eval bb_eval)


text \<open>
  Claim C8.  A transfer-hook invocation that returns, returns exactly the requested
  item count, for the three receivers (items produced) and for the generator (items
  consumed).  A receiver's hook does return when the count is not negative and no
  vendor call it makes reports a fatal status; the generator's hook returns whenever it
  is not terminated.
\<close>

theorem work_returns_requested_count:
  "(bb_work ok n wbb = Returns v wbb' \<longrightarrow> v = n)
   \<and> (sm_work ok n wsm = Returns v wsm' \<longrightarrow> v = n)
   \<and> (sp_work n wsp = Returns v wsp' \<longrightarrow> v = n)
   \<and> (vsg_work ok n inp wvsg = Returns v wvsg' \<longrightarrow> v = n)
   \<and> ((\<forall>st \<in> set (statuses_of (new_events wbb (final (bb_work ok n wbb)))). ok \<le> st) \<and> 0 \<le> n
        \<longrightarrow> (\<exists>w'. bb_work ok n wbb = Returns n w'))
   \<and> ((\<forall>st \<in> set (statuses_of (new_events wsm (final (sm_work ok n wsm)))). ok \<le> st) \<and> 0 \<le> n
        \<longrightarrow> (\<exists>w'. sm_work ok n wsm = Returns n w'))
   \<and> ((\<forall>st \<in> set (statuses_of (new_events wsp (final (sp_work n wsp)))). spNoError \<le> st)
          \<and> 0 \<le> n
        \<longrightarrow> (\<exists>w'. sp_work n wsp = Returns n w'))
   \<and> (\<not> aborted (vsg_work ok n inp wvsg) \<longrightarrow> (\<exists>w'. vsg_work ok n inp wvsg = Returns n w'))"
proof (intro conjI impI)
  show "v = n" if "bb_work ok n wbb = Returns v wbb'"
    using bb_work_returns [OF that] by simp
  show "v = n" if "sm_work ok n wsm = Returns v wsm'"
    using sm_work_returns [OF that] by simp
  show "v = n" if "sp_work n wsp = Returns v wsp'"
    using sp_work_returns [OF that] by simp
  show "v = n" if "vsg_work ok n inp wvsg = Returns v wvsg'"
    using vsg_work_returns [OF that] by simp
  show "\<exists>w'. bb_work ok n wbb = Returns n w'"
    if "(\<forall>st \<in> set (statuses_of (new_events wbb (final (bb_work ok n wbb)))). ok \<le> st) \<and> 0 \<le> n"
    using that bb_work_completes by blast
  show "\<exists>w'. sm_work ok n wsm = Returns n w'"
    if "(\<forall>st \<in> set (statuses_of (new_events wsm (final (sm_work ok n wsm)))). ok \<le> st) \<and> 0 \<le> n"
    using that sm_work_completes by blast
  show "\<exists>w'. sp_work n wsp = Returns n w'"
    if "(\<forall>st \<in> set (statuses_of (new_events wsp (final (sp_work n wsp)))). spNoError \<le> st)
          \<and> 0 \<le> n"
    using that sp_work_completes by blast
  show "\<exists>w'. vsg_work ok n inp wvsg = Returns n w'" if "\<not> aborted (vsg_work ok n inp wvsg)"
  proof -
    from vsg_work_events [of ok n inp wvsg] have "\<not> thrown (vsg_work ok n inp wvsg)" by blast
    with that obtain v w' where r: "vsg_work ok n inp wvsg = Returns v w'"
      using res_cases3 by blast
    with vsg_work_returns [OF r] show ?thesis by simp
  qed
qed

theorem work_returns_requested_count_witness:
  "(\<exists>v w'. bb_work 0 2 bb_example = Returns v w' \<and> v = 2)
   \<and> (\<exists>v w'. sm_work 0 2 sm_example = Returns v w' \<and> v = 2)
   \<and> (\<exists>v w'. sp_work 2 sp_example = Returns v w' \<and> v = 2)
   \<and> (\<exists>v w'. vsg_work 0 2 [(5, 6), (7, 8)] vsg_example = Returns v w' \<and> v = 2)
   \<and> statuses_of (new_events bb_example (final (bb_work 0 2 bb_example)))
       = [0, 0, 0, 0, 0, 0, 0]
   \<and> statuses_of (new_events sm_example (final (sm_work 0 2 sm_example)))
       = [0, 0, 0, 0, 0, 0, 0, 0, 0]
   \<and> statuses_of (new_events sp_example (final (sp_work 2 sp_example)))
       = [0, 0, 0, 0, 0, 0, 0, 0, 0, 0]
   \<and> \<not> aborted (vsg_work 0 2 [(5, 6), (7, 8)] vsg_example)"
proof -
  have sb: "statuses_of (new_events bb_example (final (bb_work 0 2 bb_example)))
       = [0, 0, 0, 0, 0, 0, 0]"
    by (simp add: eval_world bb_eval)
  have sm: "statuses_of (new_events sm_example (final (sm_work 0 2 sm_example)))
       = [0, 0, 0, 0, 0, 0, 0, 0, 0]"
    by (simp add: eval_world sm_eval)
  have sp: "statuses_of (new_events sp_example (final (sp_work 2 sp_example)))
       = [0, 0, 0, 0, 0, 0, 0, 0, 0, 0]"
    by (simp add: eval_world sp_eval)
  have ga: "\<not> aborted (vsg_work 0 2 [(5, 6), (7, 8)] vsg_example)"
    by (simp add: eval_world vsg_eval)
  note T = work_returns_requested_count
    [where ok = 0 and n = 2 and wbb = bb_example and wsm = sm_example and wsp = sp_example
       and wvsg = vsg_example and inp = "[(5, 6), (7, 8)]"]
  have "\<exists>w'. bb_work 0 2 bb_example = Returns 2 w'" using T sb by simp
  moreover have "\<exists>w'. sm_work 0 2 sm_example = Returns 2 w'" using T sm by simp
  moreover have "\<exists>w'. sp_work 2 sp_example = Returns 2 w'"
    using T sp by (simp add: spNoError_def)
  moreover have "\<exists>w'. vsg_work 0 2 [(5, 6), (7, 8)] vsg_example = Returns 2 w'"
    using T ga by simp
  ultimately show ?thesis using sb sm sp ga by simp
qed


end
